theory Spec2Isabelle
  imports Main "HOL-Library.Sublist"
begin

section \<open>Constants of the key scheme\<close>

text \<open>
  The constants of \<^verbatim>\<open>internal/repository/dynamodb/dynamodb_rbac.go\<close>. Go strings are
  byte sequences, here \<open>string\<close>.
\<close>

definition EntityTypeUser :: string where "EntityTypeUser = ''USER''"
definition EntityTypeRole :: string where "EntityTypeRole = ''ROLE''"
definition EntityTypePermission :: string where "EntityTypePermission = ''PERMISSION''"
definition MetadataPrefix :: string where "MetadataPrefix = ''METADATA#''"
definition UserPrefix :: string where "UserPrefix = ''USER#''"
definition RolePrefix :: string where "RolePrefix = ''ROLE#''"
definition PermissionPrefix :: string where "PermissionPrefix = ''PERMISSION#''"
definition GSI1Name :: string where "GSI1Name = ''GSI1''"

text \<open>
  \<^verbatim>\<open>config.DynamoDBConfig.EntityTypeIndex\<close>: the name of the listing index, read from the
  environment with this default (the index that the README's table definition creates).
\<close>

definition EntityTypeIndex :: string where "EntityTypeIndex = ''EntityTypeIndex''"

section \<open>Errors\<close>

text \<open>
  The two sentinel errors of \<^verbatim>\<open>internal/repository/repository.go\<close>, the failures of the
  store client, and \<^verbatim>\<open>fmt.Errorf("msg: %w", err)\<close> as \<open>Errorf msg err\<close>.
  \<open>Panic\<close> is a run-time panic of a slice expression out of range.
\<close>

datatype error =
    ErrNotFound
  | ErrAlreadyExists
  | ConditionalCheckFailedException
  | ValidationException
  | ServiceUnavailable
  | UnmarshalTypeError
  | Panic
  | Errorf string error

text \<open>\<^verbatim>\<open>errors.Is\<close> (and \<^verbatim>\<open>errors.As\<close> for a type with one value): walk the \<^verbatim>\<open>%w\<close> chain.\<close>

fun errors_Is :: "error \<Rightarrow> error \<Rightarrow> bool" where
  "errors_Is (Errorf msg err) target =
     (Errorf msg err = target \<or> errors_Is err target)"
| "errors_Is err target = (err = target)"

section \<open>Domain types\<close>

text \<open>
  \<^verbatim>\<open>time.Time\<close> is an instant, counted from the zero \<^verbatim>\<open>Time\<close> (the zero value is \<open>0\<close>).
  \<^verbatim>\<open>time.Now().UTC()\<close> is an argument \<open>now\<close> of every operation that reads the clock.
\<close>

type_synonym time = nat

type_synonym UserID = string
type_synonym RoleID = string
type_synonym PermissionID = string

record User =
  User_ID :: UserID
  User_DisplayName :: string
  User_Email :: string
  User_CreatedAt :: time
  User_UpdatedAt :: time

record Role =
  Role_ID :: RoleID
  Role_DisplayName :: string
  Role_Description :: string
  Role_CreatedAt :: time
  Role_UpdatedAt :: time

record Permission =
  Permission_ID :: PermissionID
  Permission_DisplayName :: string
  Permission_Description :: string
  Permission_CreatedAt :: time
  Permission_UpdatedAt :: time

section \<open>The store client\<close>

text \<open>
  An item is \<^verbatim>\<open>map[string]types.AttributeValue\<close>. The repository writes string members
  only; \<open>S s\<close> is \<^verbatim>\<open>AttributeValueMemberS{Value: s}\<close>. A \<^verbatim>\<open>time.Time\<close> is marshalled to the
  string member that holds its RFC 3339 text, and \<open>T t\<close> stands for that member: the text
  itself is not rendered. No code of the repository reads an attribute that it writes as a
  time into a string field, or the other way round.
\<close>

datatype AttributeValue = S string | T time

type_synonym Item = "string \<rightharpoonup> AttributeValue"

text \<open>
  The client is the table behind it: its items, whether the store answers, and whether the
  table has the index \<open>GSI1\<close>. A call on a client that is not \<open>up\<close> fails; this is how every
  \<^verbatim>\<open>err != nil\<close> branch after a client call is reached. \<open>GSI1\<close> is the index that
  \<^verbatim>\<open>ListUsersInRole\<close> queries by name (\<^verbatim>\<open>// Name of your GSI (SK-PK)\<close>); the table that the
  README creates has the listing index only, so a table may be without it. The order of
  \<open>table\<close> is the order in which queries return items; the sort order of a real query
  result is not modelled, and an index is read as in step with the table.
\<close>

record Client =
  table :: "Item list"
  up :: bool
  gsi1 :: bool

text \<open>The primary key of an item: both key attributes must be non-empty strings.\<close>

definition item_key :: "Item \<Rightarrow> (string \<times> string) option" where
  "item_key it =
     (case (it ''PK'', it ''SK'') of
        (Some (S pk), Some (S sk)) \<Rightarrow> if pk = [] \<or> sk = [] then None else Some (pk, sk)
      | _ \<Rightarrow> None)"

text \<open>The one condition expression in use, \<^verbatim>\<open>attribute_not_exists(a)\<close>.\<close>

datatype ConditionExpression = attribute_not_exists string

fun eval_condition :: "ConditionExpression \<Rightarrow> Item option \<Rightarrow> bool" where
  "eval_condition (attribute_not_exists a) None = True"
| "eval_condition (attribute_not_exists a) (Some old) = (old a = None)"

definition lookup_key :: "Item list \<Rightarrow> string \<times> string \<Rightarrow> Item option" where
  "lookup_key rows k = find (\<lambda>row. item_key row = Some k) rows"

text \<open>
  \<^verbatim>\<open>PutItem\<close>: replaces the item with the same primary key, after the condition, if any,
  holds of the item it would replace. Of the item, the model checks that both key
  attributes are non-empty strings. The store refuses more: a partition key over 2048
  bytes or a sort key over 1024, an empty string in a key attribute of an index, an item
  over 400 KB. These limits are not modelled, so where the model's put succeeds on such an
  item the store's fails.
\<close>

definition PutItem :: "Client \<Rightarrow> Item \<Rightarrow> ConditionExpression option \<Rightarrow> error option \<times> Client" where
  "PutItem c it cond =
     (if \<not> up c then (Some ServiceUnavailable, c)
      else case item_key it of
        None \<Rightarrow> (Some ValidationException, c)
      | Some k \<Rightarrow>
          if (case cond of None \<Rightarrow> True | Some e \<Rightarrow> eval_condition e (lookup_key (table c) k))
          then (None, c\<lparr>table := it # filter (\<lambda>row. item_key row \<noteq> Some k) (table c)\<rparr>)
          else (Some ConditionalCheckFailedException, c))"

definition GetItem :: "Client \<Rightarrow> string \<Rightarrow> string \<Rightarrow> error + Item option" where
  "GetItem c pk sk =
     (if \<not> up c then Inl ServiceUnavailable else Inr (lookup_key (table c) (pk, sk)))"

definition DeleteItem :: "Client \<Rightarrow> string \<Rightarrow> string \<Rightarrow> error option \<times> Client" where
  "DeleteItem c pk sk =
     (if \<not> up c then (Some ServiceUnavailable, c)
      else (None, c\<lparr>table := filter (\<lambda>row. item_key row \<noteq> Some (pk, sk)) (table c)\<rparr>))"

text \<open>
  Key schemas: the table itself (\<open>None\<close>) has partition key \<open>PK\<close> and sort key \<open>SK\<close>.
  \<open>GSI1\<close>, where the table has it, swaps them, as the comment at its query says
  (\<^verbatim>\<open>// GSI1PK = SK, GSI1SK = PK\<close>); the code reads \<open>PK\<close> only from its items. The listing
  index has partition key \<open>EntityType\<close> and sort key \<open>EntityID\<close> and projects keys only, as
  the README creates it. The third component says whether only the key attributes are
  projected. A query of an index that the table does not have is refused.
\<close>

definition index_schema :: "Client \<Rightarrow> string option \<Rightarrow> (string \<times> string \<times> bool) option" where
  "index_schema c idx =
     (case idx of
        None \<Rightarrow> Some (''PK'', ''SK'', False)
      | Some n \<Rightarrow>
          if n = GSI1Name then (if gsi1 c then Some (''SK'', ''PK'', False) else None)
          else if n = EntityTypeIndex then Some (''EntityType'', ''EntityID'', True)
          else None)"

text \<open>
  Key conditions: \<^verbatim>\<open>a = :v\<close> and \<^verbatim>\<open>a = :v AND begins_with(b, :p)\<close>.
\<close>

datatype KeyConditionExpression =
    KeyEq string string
  | KeyEqBeginsWith string string string string

fun key_condition_valid :: "string \<Rightarrow> string \<Rightarrow> KeyConditionExpression \<Rightarrow> bool" where
  "key_condition_valid h r (KeyEq a v) = (a = h)"
| "key_condition_valid h r (KeyEqBeginsWith a v b p) = (a = h \<and> b = r)"

fun key_condition_holds :: "KeyConditionExpression \<Rightarrow> Item \<Rightarrow> bool" where
  "key_condition_holds (KeyEq a v) it = (it a = Some (S v))"
| "key_condition_holds (KeyEqBeginsWith a v b p) it =
     (it a = Some (S v) \<and> (case it b of Some (S s) \<Rightarrow> prefix p s | _ \<Rightarrow> False))"

text \<open>An item is in an index when it has both key attributes of the index as strings.\<close>

definition in_index :: "string \<Rightarrow> string \<Rightarrow> Item \<Rightarrow> bool" where
  "in_index h r it =
     (case (it h, it r) of (Some (S x), Some (S y)) \<Rightarrow> True | _ \<Rightarrow> False)"

definition project :: "string \<Rightarrow> string \<Rightarrow> bool \<Rightarrow> Item \<Rightarrow> Item" where
  "project h r keys_only it =
     (if keys_only then it |` {''PK'', ''SK'', h, r} else it)"

text \<open>
  \<^verbatim>\<open>Query\<close> through \<^verbatim>\<open>NewQueryPaginator\<close>: the items of all pages, in order. A page that fails
  makes the caller return the error and drop what it has collected, so the pages of a
  call either all arrive or the call fails.
\<close>

definition Query :: "Client \<Rightarrow> string option \<Rightarrow> KeyConditionExpression \<Rightarrow> error + Item list" where
  "Query c idx kc =
     (if \<not> up c then Inl ServiceUnavailable
      else case index_schema c idx of
        None \<Rightarrow> Inl ValidationException
      | Some (h, r, keys_only) \<Rightarrow>
          if \<not> key_condition_valid h r kc then Inl ValidationException
          else Inr (map (project h r keys_only)
                 (filter (\<lambda>it. in_index h r it \<and> key_condition_holds kc it) (table c))))"

section \<open>Item structs and their attribute maps\<close>

text \<open>
  \<^verbatim>\<open>baseItem\<close> and the three item structs that embed it. The tags \<^verbatim>\<open>dynamodbav:"..."\<close> give
  the attribute names; \<^verbatim>\<open>omitempty\<close> leaves an empty string out of the map.
\<close>

record baseItem =
  PK :: string
  SK :: string
  EntityType :: string

record userItem = baseItem +
  userItem_ID :: UserID
  userItem_DisplayName :: string
  userItem_Email :: string
  userItem_CreatedAt :: time
  userItem_UpdatedAt :: time

record roleItem = baseItem +
  roleItem_ID :: RoleID
  roleItem_DisplayName :: string
  roleItem_Description :: string
  roleItem_CreatedAt :: time
  roleItem_UpdatedAt :: time

record permissionItem = baseItem +
  permissionItem_ID :: PermissionID
  permissionItem_DisplayName :: string
  permissionItem_Description :: string
  permissionItem_CreatedAt :: time
  permissionItem_UpdatedAt :: time

text \<open>The \<^verbatim>\<open>interface{}\<close> argument of \<^verbatim>\<open>createItem\<close> is one of the three structs.\<close>

datatype item_struct =
    UserItem userItem
  | RoleItem roleItem
  | PermissionItem permissionItem

definition put_omitempty :: "string \<Rightarrow> string \<Rightarrow> Item \<Rightarrow> Item" where
  "put_omitempty name v m = (if v = [] then m else m(name \<mapsto> S v))"

definition marshal_baseItem :: "'a baseItem_scheme \<Rightarrow> Item" where
  "marshal_baseItem b =
     put_omitempty ''EntityType'' (EntityType b)
       (Map.empty(''PK'' \<mapsto> S (PK b), ''SK'' \<mapsto> S (SK b)))"

text \<open>\<^verbatim>\<open>attributevalue.MarshalMap\<close>; it cannot fail on these structs.\<close>

fun MarshalMap :: "item_struct \<Rightarrow> error + Item" where
  "MarshalMap (UserItem x) =
     Inr ((marshal_baseItem x)
       (''EntityID'' \<mapsto> S (userItem_ID x),
        ''DisplayName'' \<mapsto> S (userItem_DisplayName x),
        ''Email'' \<mapsto> S (userItem_Email x),
        ''CreatedAt'' \<mapsto> T (userItem_CreatedAt x),
        ''UpdatedAt'' \<mapsto> T (userItem_UpdatedAt x)))"
| "MarshalMap (RoleItem x) =
     Inr ((put_omitempty ''Description'' (roleItem_Description x) (marshal_baseItem x))
       (''EntityID'' \<mapsto> S (roleItem_ID x),
        ''DisplayName'' \<mapsto> S (roleItem_DisplayName x),
        ''CreatedAt'' \<mapsto> T (roleItem_CreatedAt x),
        ''UpdatedAt'' \<mapsto> T (roleItem_UpdatedAt x)))"
| "MarshalMap (PermissionItem x) =
     Inr ((put_omitempty ''Description'' (permissionItem_Description x) (marshal_baseItem x))
       (''EntityID'' \<mapsto> S (permissionItem_ID x),
        ''DisplayName'' \<mapsto> S (permissionItem_DisplayName x),
        ''CreatedAt'' \<mapsto> T (permissionItem_CreatedAt x),
        ''UpdatedAt'' \<mapsto> T (permissionItem_UpdatedAt x)))"

text \<open>
  \<^verbatim>\<open>attributevalue.UnmarshalMap\<close>, field by field: an absent attribute leaves the zero value,
  an attribute of the wrong kind is an error.
\<close>

definition field_string :: "Item \<Rightarrow> string \<Rightarrow> error + string" where
  "field_string it name =
     (case it name of None \<Rightarrow> Inr [] | Some (S s) \<Rightarrow> Inr s | Some (T t) \<Rightarrow> Inl UnmarshalTypeError)"

definition field_time :: "Item \<Rightarrow> string \<Rightarrow> error + time" where
  "field_time it name =
     (case it name of None \<Rightarrow> Inr 0 | Some (T t) \<Rightarrow> Inr t | Some (S s) \<Rightarrow> Inl UnmarshalTypeError)"

fun and_then :: "error + 'a \<Rightarrow> ('a \<Rightarrow> error + 'b) \<Rightarrow> error + 'b" where
  "and_then (Inl e) f = Inl e"
| "and_then (Inr x) f = f x"

definition UnmarshalMap_baseItem :: "Item \<Rightarrow> error + baseItem" where
  "UnmarshalMap_baseItem it =
     and_then (field_string it ''PK'') (\<lambda>pk.
     and_then (field_string it ''SK'') (\<lambda>sk.
     and_then (field_string it ''EntityType'') (\<lambda>et.
     Inr \<lparr>PK = pk, SK = sk, EntityType = et\<rparr>)))"

definition UnmarshalMap_userItem :: "Item \<Rightarrow> error + userItem" where
  "UnmarshalMap_userItem it =
     and_then (UnmarshalMap_baseItem it) (\<lambda>b.
     and_then (field_string it ''EntityID'') (\<lambda>i.
     and_then (field_string it ''DisplayName'') (\<lambda>n.
     and_then (field_string it ''Email'') (\<lambda>e.
     and_then (field_time it ''CreatedAt'') (\<lambda>ca.
     and_then (field_time it ''UpdatedAt'') (\<lambda>ua.
     Inr \<lparr>PK = PK b, SK = SK b, EntityType = EntityType b,
          userItem_ID = i, userItem_DisplayName = n, userItem_Email = e,
          userItem_CreatedAt = ca, userItem_UpdatedAt = ua\<rparr>))))))"

definition UnmarshalMap_roleItem :: "Item \<Rightarrow> error + roleItem" where
  "UnmarshalMap_roleItem it =
     and_then (UnmarshalMap_baseItem it) (\<lambda>b.
     and_then (field_string it ''EntityID'') (\<lambda>i.
     and_then (field_string it ''DisplayName'') (\<lambda>n.
     and_then (field_string it ''Description'') (\<lambda>d.
     and_then (field_time it ''CreatedAt'') (\<lambda>ca.
     and_then (field_time it ''UpdatedAt'') (\<lambda>ua.
     Inr \<lparr>PK = PK b, SK = SK b, EntityType = EntityType b,
          roleItem_ID = i, roleItem_DisplayName = n, roleItem_Description = d,
          roleItem_CreatedAt = ca, roleItem_UpdatedAt = ua\<rparr>))))))"

definition UnmarshalMap_permissionItem :: "Item \<Rightarrow> error + permissionItem" where
  "UnmarshalMap_permissionItem it =
     and_then (UnmarshalMap_baseItem it) (\<lambda>b.
     and_then (field_string it ''EntityID'') (\<lambda>i.
     and_then (field_string it ''DisplayName'') (\<lambda>n.
     and_then (field_string it ''Description'') (\<lambda>d.
     and_then (field_time it ''CreatedAt'') (\<lambda>ca.
     and_then (field_time it ''UpdatedAt'') (\<lambda>ua.
     Inr \<lparr>PK = PK b, SK = SK b, EntityType = EntityType b,
          permissionItem_ID = i, permissionItem_DisplayName = n,
          permissionItem_Description = d,
          permissionItem_CreatedAt = ca, permissionItem_UpdatedAt = ua\<rparr>))))))"

text \<open>
  A slice expression \<^verbatim>\<open>s[n:]\<close>: it panics when \<open>n\<close> is beyond the length of \<open>s\<close>.
\<close>

definition slice_from :: "string \<Rightarrow> nat \<Rightarrow> error + string" where
  "slice_from s n = (if n \<le> length s then Inr (drop n s) else Inl Panic)"

section \<open>Shared helpers of the repository\<close>

text \<open>\<^verbatim>\<open>createItem\<close>: an existence-guarded put.\<close>

definition createItem :: "Client \<Rightarrow> item_struct \<Rightarrow> error option \<times> Client" where
  "createItem c item =
     (case MarshalMap item of
        Inl err \<Rightarrow> (Some (Errorf ''failed to marshal user'' err), c)
      | Inr av \<Rightarrow>
          (case PutItem c av (Some (attribute_not_exists ''PK'')) of
             (Some err, c') \<Rightarrow>
               if errors_Is err ConditionalCheckFailedException
               then (Some ErrAlreadyExists, c')
               else (Some (Errorf ''failed to put item'' err), c')
           | (None, c') \<Rightarrow> (None, c')))"

definition getItemById :: "Client \<Rightarrow> string \<Rightarrow> string \<Rightarrow> error + Item" where
  "getItemById c pk sk =
     (case GetItem c pk sk of
        Inl err \<Rightarrow> Inl (Errorf ''failed to get user item'' err)
      | Inr None \<Rightarrow> Inl ErrNotFound
      | Inr (Some out) \<Rightarrow> Inr out)"

section \<open>The role repository\<close>

definition roleToItem :: "Role \<Rightarrow> roleItem" where
  "roleToItem role =
     (let pk = RolePrefix @ Role_ID role in
      \<lparr>PK = pk, SK = MetadataPrefix @ Role_ID role, EntityType = EntityTypeUser,
       roleItem_ID = Role_ID role,
       roleItem_DisplayName = Role_DisplayName role,
       roleItem_Description = Role_Description role,
       roleItem_CreatedAt = Role_CreatedAt role,
       roleItem_UpdatedAt = Role_UpdatedAt role\<rparr>)"

definition itemToRole :: "roleItem \<Rightarrow> Role" where
  "itemToRole item =
     \<lparr>Role_ID = roleItem_ID item,
      Role_DisplayName = roleItem_DisplayName item,
      Role_Description = roleItem_Description item,
      Role_CreatedAt = roleItem_CreatedAt item,
      Role_UpdatedAt = roleItem_UpdatedAt item\<rparr>"

text \<open>
  \<^verbatim>\<open>CreateRole\<close> stamps the role it was given (through the pointer) and returns the error;
  the model returns the stamped role, the error and the client.
\<close>

definition repo_CreateRole :: "Client \<Rightarrow> time \<Rightarrow> Role \<Rightarrow> Role \<times> error option \<times> Client" where
  "repo_CreateRole c now role0 =
     (let role = role0\<lparr>Role_CreatedAt := now\<rparr>;
          role = role\<lparr>Role_UpdatedAt := Role_CreatedAt role\<rparr>;
          item = roleToItem role
      in (role, createItem c (RoleItem item)))"

definition repo_GetRoleByID :: "Client \<Rightarrow> RoleID \<Rightarrow> error + Role" where
  "repo_GetRoleByID c ident =
     (let pk = RolePrefix @ ident; sk = MetadataPrefix @ ident in
      case getItemById c pk sk of
        Inl err \<Rightarrow> Inl err
      | Inr out \<Rightarrow>
          (case UnmarshalMap_roleItem out of
             Inl err \<Rightarrow> Inl (Errorf ''failed to unmarshal user item'' err)
           | Inr roleItem \<Rightarrow> Inr (itemToRole roleItem)))"

text \<open>The three methods marked \<^verbatim>\<open>// TODO\<close> in \<^verbatim>\<open>role.go\<close>, as they are.\<close>

definition repo_ListAllRoles :: "Client \<Rightarrow> error + Role list" where
  "repo_ListAllRoles c = Inr []"

definition repo_AssignPermissionToRole ::
  "Client \<Rightarrow> RoleID \<Rightarrow> PermissionID \<Rightarrow> error option \<times> Client" where
  "repo_AssignPermissionToRole c roleID permissionID = (None, c)"

definition repo_GetRolePermissions :: "Client \<Rightarrow> RoleID \<Rightarrow> error + Permission list" where
  "repo_GetRolePermissions c roleID = Inr []"

section \<open>The permission repository\<close>

definition permissionToItem :: "Permission \<Rightarrow> permissionItem" where
  "permissionToItem permission =
     (let pk = RolePrefix @ Permission_ID permission in
      \<lparr>PK = pk, SK = MetadataPrefix @ Permission_ID permission, EntityType = EntityTypeUser,
       permissionItem_ID = Permission_ID permission,
       permissionItem_DisplayName = Permission_DisplayName permission,
       permissionItem_Description = Permission_Description permission,
       permissionItem_CreatedAt = Permission_CreatedAt permission,
       permissionItem_UpdatedAt = Permission_UpdatedAt permission\<rparr>)"

definition itemToPermission :: "permissionItem \<Rightarrow> Permission" where
  "itemToPermission item =
     \<lparr>Permission_ID = permissionItem_ID item,
      Permission_DisplayName = permissionItem_DisplayName item,
      Permission_Description = permissionItem_Description item,
      Permission_CreatedAt = permissionItem_CreatedAt item,
      Permission_UpdatedAt = permissionItem_UpdatedAt item\<rparr>"

definition repo_CreatePermission ::
  "Client \<Rightarrow> time \<Rightarrow> Permission \<Rightarrow> Permission \<times> error option \<times> Client" where
  "repo_CreatePermission c now permission0 =
     (let permission = permission0\<lparr>Permission_CreatedAt := now\<rparr>;
          permission = permission\<lparr>Permission_UpdatedAt := Permission_CreatedAt permission\<rparr>;
          item = permissionToItem permission
      in (permission, createItem c (PermissionItem item)))"

definition repo_GetPermissionByID :: "Client \<Rightarrow> PermissionID \<Rightarrow> error + Permission" where
  "repo_GetPermissionByID c ident =
     (let pk = PermissionPrefix @ ident; sk = MetadataPrefix @ ident in
      case getItemById c pk sk of
        Inl err \<Rightarrow> Inl err
      | Inr out \<Rightarrow>
          (case UnmarshalMap_permissionItem out of
             Inl err \<Rightarrow> Inl (Errorf ''failed to unmarshal user item'' err)
           | Inr permissionItem \<Rightarrow> Inr (itemToPermission permissionItem)))"

text \<open>Marked \<^verbatim>\<open>// TODO\<close> in \<^verbatim>\<open>permission.go\<close>, as it is.\<close>

definition repo_ListAllPermissions :: "Client \<Rightarrow> error + Permission list" where
  "repo_ListAllPermissions c = Inr []"

section \<open>The user repository\<close>

definition userToItem :: "User \<Rightarrow> userItem" where
  "userToItem user =
     (let pk = UserPrefix @ User_ID user in
      \<lparr>PK = pk, SK = MetadataPrefix @ User_ID user, EntityType = EntityTypeUser,
       userItem_ID = User_ID user,
       userItem_DisplayName = User_DisplayName user,
       userItem_Email = User_Email user,
       userItem_CreatedAt = User_CreatedAt user,
       userItem_UpdatedAt = User_UpdatedAt user\<rparr>)"

definition itemToUser :: "userItem \<Rightarrow> User" where
  "itemToUser item =
     \<lparr>User_ID = userItem_ID item,
      User_DisplayName = userItem_DisplayName item,
      User_Email = userItem_Email item,
      User_CreatedAt = userItem_CreatedAt item,
      User_UpdatedAt = userItem_UpdatedAt item\<rparr>"

definition repo_CreateUser :: "Client \<Rightarrow> time \<Rightarrow> User \<Rightarrow> User \<times> error option \<times> Client" where
  "repo_CreateUser c now user0 =
     (let user = user0\<lparr>User_CreatedAt := now\<rparr>;
          user = user\<lparr>User_UpdatedAt := User_CreatedAt user\<rparr>;
          item = userToItem user
      in (user, createItem c (UserItem item)))"

definition repo_GetUserByID :: "Client \<Rightarrow> UserID \<Rightarrow> error + User" where
  "repo_GetUserByID c ident =
     (let pk = UserPrefix @ ident; sk = MetadataPrefix @ ident in
      case getItemById c pk sk of
        Inl err \<Rightarrow> Inl err
      | Inr out \<Rightarrow>
          (case UnmarshalMap_userItem out of
             Inl err \<Rightarrow> Inl (Errorf ''failed to unmarshal user item'' err)
           | Inr userItem \<Rightarrow> Inr (itemToUser userItem)))"

text \<open>
  The body of the loop of \<^verbatim>\<open>ListAllUsers\<close> over the items of the pages: an item that does
  not unmarshal, or whose user cannot be fetched, is logged and skipped.
\<close>

fun ListAllUsers_items :: "Client \<Rightarrow> Item list \<Rightarrow> User list \<Rightarrow> User list" where
  "ListAllUsers_items c [] users = users"
| "ListAllUsers_items c (item # items) users =
     (case UnmarshalMap_userItem item of
        Inl err \<Rightarrow> ListAllUsers_items c items users
      | Inr partialUser \<Rightarrow>
          (case repo_GetUserByID c (userItem_ID partialUser) of
             Inl err \<Rightarrow> ListAllUsers_items c items users
           | Inr user \<Rightarrow> ListAllUsers_items c items (users @ [user])))"

definition repo_ListAllUsers :: "Client \<Rightarrow> error + User list" where
  "repo_ListAllUsers c =
     (case Query c (Some EntityTypeIndex) (KeyEq ''EntityType'' EntityTypeUser) of
        Inl err \<Rightarrow> Inl (Errorf ''failed to query user roles'' err)
      | Inr items \<Rightarrow> Inr (ListAllUsers_items c items []))"

text \<open>
  \<^verbatim>\<open>AssignRoleToUser\<close>: an unconditional put of the edge item; \<open>now\<close> is the instant whose
  RFC 3339 text goes into \<open>AssignedAt\<close>.
\<close>

definition repo_AssignRoleToUser ::
  "Client \<Rightarrow> time \<Rightarrow> UserID \<Rightarrow> RoleID \<Rightarrow> error option \<times> Client" where
  "repo_AssignRoleToUser c now userID roleID =
     (let item = Map.empty
            (''PK'' \<mapsto> S (UserPrefix @ userID),
             ''SK'' \<mapsto> S (RolePrefix @ roleID),
             ''EntityType'' \<mapsto> S ''UserRoleAssignment'',
             ''AssignedAt'' \<mapsto> T now)
      in case PutItem c item None of
           (Some err, c') \<Rightarrow> (Some (Errorf ''failed to assign role to user'' err), c')
         | (None, c') \<Rightarrow> (None, c'))"

definition repo_RemoveRoleFromUser ::
  "Client \<Rightarrow> UserID \<Rightarrow> RoleID \<Rightarrow> error option \<times> Client" where
  "repo_RemoveRoleFromUser c userID roleID =
     (case DeleteItem c (UserPrefix @ userID) (RolePrefix @ roleID) of
        (Some err, c') \<Rightarrow> (Some (Errorf ''failed to remove role from user'' err), c')
      | (None, c') \<Rightarrow> (None, c'))"

text \<open>
  The loop of \<^verbatim>\<open>GetUserRoles\<close> over the items of the pages. The role id is the sort key
  after the prefix; a role that cannot be fetched is reported and skipped.
\<close>

fun GetUserRoles_items :: "Client \<Rightarrow> Item list \<Rightarrow> Role list \<Rightarrow> error + Role list" where
  "GetUserRoles_items c [] roles = Inr roles"
| "GetUserRoles_items c (item # items) roles =
     (case UnmarshalMap_baseItem item of
        Inl err \<Rightarrow> GetUserRoles_items c items roles
      | Inr base \<Rightarrow>
          (case slice_from (SK base) (length RolePrefix) of
             Inl p \<Rightarrow> Inl p
           | Inr roleIDStr \<Rightarrow>
               (case repo_GetRoleByID c roleIDStr of
                  Inl err \<Rightarrow> GetUserRoles_items c items roles
                | Inr role \<Rightarrow> GetUserRoles_items c items (roles @ [role]))))"

definition repo_GetUserRoles :: "Client \<Rightarrow> UserID \<Rightarrow> error + Role list" where
  "repo_GetUserRoles c userID =
     (case Query c None (KeyEqBeginsWith ''PK'' (UserPrefix @ userID) ''SK'' RolePrefix) of
        Inl err \<Rightarrow> Inl (Errorf ''failed to query user roles'' err)
      | Inr items \<Rightarrow> GetUserRoles_items c items [])"

text \<open>The loop of \<^verbatim>\<open>ListUsersInRole\<close>: the user id is the partition key after the prefix.\<close>

fun ListUsersInRole_items :: "Client \<Rightarrow> Item list \<Rightarrow> User list \<Rightarrow> error + User list" where
  "ListUsersInRole_items c [] users = Inr users"
| "ListUsersInRole_items c (itemMap # items) users =
     (case UnmarshalMap_baseItem itemMap of
        Inl err \<Rightarrow> ListUsersInRole_items c items users
      | Inr base \<Rightarrow>
          (case slice_from (PK base) (length UserPrefix) of
             Inl p \<Rightarrow> Inl p
           | Inr userIDStr \<Rightarrow>
               (case repo_GetUserByID c userIDStr of
                  Inl err \<Rightarrow> ListUsersInRole_items c items users
                | Inr user \<Rightarrow> ListUsersInRole_items c items (users @ [user]))))"

definition repo_ListUsersInRole :: "Client \<Rightarrow> RoleID \<Rightarrow> error + User list" where
  "repo_ListUsersInRole c roleID =
     (case Query c (Some GSI1Name) (KeyEqBeginsWith ''SK'' (RolePrefix @ roleID) ''PK'' UserPrefix) of
        Inl err \<Rightarrow> Inl (Errorf ''failed to query users in role using GSI1'' err)
      | Inr items \<Rightarrow> ListUsersInRole_items c items [])"

section \<open>The service\<close>

text \<open>
  \<^verbatim>\<open>rbacServiceImpl\<close> of \<^verbatim>\<open>internal/service/rbac_service.go\<close>. A method that returns
  \<^verbatim>\<open>(*T, error)\<close> and writes to the store returns \<open>error + T\<close> and the client.
\<close>

definition service_CreateUser ::
  "Client \<Rightarrow> time \<Rightarrow> string \<Rightarrow> string \<Rightarrow> (error + User) \<times> Client" where
  "service_CreateUser c now displayName email =
     (let userID = ''user-'' @ email;
          user = \<lparr>User_ID = userID, User_DisplayName = displayName, User_Email = email,
                  User_CreatedAt = 0, User_UpdatedAt = 0\<rparr>
      in case repo_CreateUser c now user of
           (user, Some err, c') \<Rightarrow> (Inl (Errorf ''service.CreateUser'' err), c')
         | (user, None, c') \<Rightarrow> (Inr user, c'))"

definition service_GetUser :: "Client \<Rightarrow> UserID \<Rightarrow> error + User" where
  "service_GetUser c userID =
     (case repo_GetUserByID c userID of
        Inl err \<Rightarrow> Inl (Errorf ''service.GetUser'' err)
      | Inr user \<Rightarrow> Inr user)"

definition service_AssignRoleToUser ::
  "Client \<Rightarrow> time \<Rightarrow> UserID \<Rightarrow> RoleID \<Rightarrow> error option \<times> Client" where
  "service_AssignRoleToUser c now userID roleID =
     (case repo_GetUserByID c userID of
        Inl err \<Rightarrow> (Some (Errorf ''service.AssignRoleToUser: user not found'' err), c)
      | Inr u \<Rightarrow>
          (case repo_GetRoleByID c roleID of
             Inl err \<Rightarrow> (Some (Errorf ''service.AssignRoleToUser: role not found'' err), c)
           | Inr r \<Rightarrow>
               (case repo_AssignRoleToUser c now userID roleID of
                  (Some err, c') \<Rightarrow> (Some (Errorf ''service.AssignRoleToUser'' err), c')
                | (None, c') \<Rightarrow> (None, c'))))"

definition service_RemoveRoleFromUser ::
  "Client \<Rightarrow> UserID \<Rightarrow> RoleID \<Rightarrow> error option \<times> Client" where
  "service_RemoveRoleFromUser c userID roleID =
     (case repo_RemoveRoleFromUser c userID roleID of
        (Some err, c') \<Rightarrow> (Some (Errorf ''service.RemoveRoleFromUser'' err), c')
      | (None, c') \<Rightarrow> (None, c'))"

definition service_GetUserRoles :: "Client \<Rightarrow> UserID \<Rightarrow> error + Role list" where
  "service_GetUserRoles c userID =
     (case repo_GetUserRoles c userID of
        Inl err \<Rightarrow> Inl (Errorf ''service.GetUserRoles'' err)
      | Inr roles \<Rightarrow> Inr roles)"

definition service_CreateRole ::
  "Client \<Rightarrow> time \<Rightarrow> string \<Rightarrow> string \<Rightarrow> (error + Role) \<times> Client" where
  "service_CreateRole c now displayName description =
     (let roleID = ''role-'' @ displayName;
          role = \<lparr>Role_ID = roleID, Role_DisplayName = displayName,
                  Role_Description = description,
                  Role_CreatedAt = 0, Role_UpdatedAt = 0\<rparr>
      in case repo_CreateRole c now role of
           (role, Some err, c') \<Rightarrow> (Inl (Errorf ''service.CreateRole'' err), c')
         | (role, None, c') \<Rightarrow> (Inr role, c'))"

definition service_AssignPermissionToRole ::
  "Client \<Rightarrow> RoleID \<Rightarrow> PermissionID \<Rightarrow> error option \<times> Client" where
  "service_AssignPermissionToRole c roleID permissionID =
     (case repo_GetRoleByID c roleID of
        Inl err \<Rightarrow> (Some (Errorf ''service.AssignPermissionToRole: role not found'' err), c)
      | Inr r \<Rightarrow>
          (case repo_GetPermissionByID c permissionID of
             Inl err \<Rightarrow>
               (Some (Errorf ''service.AssignPermissionToRole: permission not found'' err), c)
           | Inr p \<Rightarrow>
               (case repo_AssignPermissionToRole c roleID permissionID of
                  (Some err, c') \<Rightarrow> (Some (Errorf ''service.AssignPermissionToRole'' err), c')
                | (None, c') \<Rightarrow> (None, c'))))"

definition service_CreatePermission ::
  "Client \<Rightarrow> time \<Rightarrow> PermissionID \<Rightarrow> string \<Rightarrow> string \<Rightarrow> (error + Permission) \<times> Client" where
  "service_CreatePermission c now ident displayName description =
     (let permission = \<lparr>Permission_ID = ident, Permission_DisplayName = displayName,
                        Permission_Description = description,
                        Permission_CreatedAt = 0, Permission_UpdatedAt = 0\<rparr>
      in case repo_CreatePermission c now permission of
           (permission, Some err, c') \<Rightarrow> (Inl (Errorf ''service.CreatePermission'' err), c')
         | (permission, None, c') \<Rightarrow> (Inr permission, c'))"

definition service_GetAllPermissions :: "Client \<Rightarrow> error + Permission list" where
  "service_GetAllPermissions c = repo_ListAllPermissions c"

definition service_GetAllRoles :: "Client \<Rightarrow> error + Role list" where
  "service_GetAllRoles c = repo_ListAllRoles c"

text \<open>
  \<^verbatim>\<open>UserHasPermission\<close>. \<open>userPermissions\<close> is the \<^verbatim>\<open>map[domain.PermissionID]bool\<close>; reading an
  absent key of a Go map gives \<^verbatim>\<open>false\<close>.
\<close>

fun UserHasPermission_roles ::
  "Client \<Rightarrow> Role list \<Rightarrow> (PermissionID \<rightharpoonup> bool) \<Rightarrow> (PermissionID \<rightharpoonup> bool)" where
  "UserHasPermission_roles c [] userPermissions = userPermissions"
| "UserHasPermission_roles c (role # roles) userPermissions =
     (case repo_GetRolePermissions c (Role_ID role) of
        Inl err \<Rightarrow> UserHasPermission_roles c roles userPermissions
      | Inr permissions \<Rightarrow>
          UserHasPermission_roles c roles
            (fold (\<lambda>p m. m(Permission_ID p \<mapsto> True)) permissions userPermissions))"

definition service_UserHasPermission :: "Client \<Rightarrow> UserID \<Rightarrow> PermissionID \<Rightarrow> error + bool" where
  "service_UserHasPermission c userID targetPermissionID =
     (case repo_GetUserRoles c userID of
        Inl err \<Rightarrow>
          if errors_Is err ErrNotFound then Inr False
          else Inl (Errorf ''service.UserHasPermission: failed to get user roles'' err)
      | Inr roles \<Rightarrow>
          if length roles = 0 then Inr False
          else (case UserHasPermission_roles c roles Map.empty targetPermissionID of
                  Some b \<Rightarrow> Inr b
                | None \<Rightarrow> Inr False))"

section \<open>States of the store\<close>

text \<open>
  The items that the repository writes: the attribute map of a metadata struct, and the
  edge item of \<^verbatim>\<open>AssignRoleToUser\<close>.
\<close>

definition marshalled :: "item_struct \<Rightarrow> Item" where
  "marshalled x = (case MarshalMap x of Inr av \<Rightarrow> av | Inl err \<Rightarrow> Map.empty)"

definition edge_item :: "UserID \<Rightarrow> RoleID \<Rightarrow> time \<Rightarrow> Item" where
  "edge_item userID roleID now =
     Map.empty
       (''PK'' \<mapsto> S (UserPrefix @ userID),
        ''SK'' \<mapsto> S (RolePrefix @ roleID),
        ''EntityType'' \<mapsto> S ''UserRoleAssignment'',
        ''AssignedAt'' \<mapsto> T now)"

definition has_key :: "Item list \<Rightarrow> string \<times> string \<Rightarrow> bool" where
  "has_key rows k = (lookup_key rows k \<noteq> None)"

text \<open>The role ids of the edge records of a user, in table order.\<close>

definition assigned_roles :: "Client \<Rightarrow> UserID \<Rightarrow> RoleID list" where
  "assigned_roles c userID =
     concat (map (\<lambda>it. case item_key it of
                          None \<Rightarrow> []
                        | Some (pk, sk) \<Rightarrow>
                            if pk = UserPrefix @ userID \<and> prefix RolePrefix sk
                            then [drop (length RolePrefix) sk] else [])
                 (table c))"

text \<open>
  The states that the service can produce from an empty table: every write goes through
  one of its methods; between two calls the store may stop or start answering, and the
  index \<open>GSI1\<close> may be added to the table or dropped from it.
\<close>

inductive reachable :: "Client \<Rightarrow> bool" where
  reachable_empty: "reachable \<lparr>table = [], up = b, gsi1 = g\<rparr>"
| reachable_up: "reachable c \<Longrightarrow> reachable (c\<lparr>up := b\<rparr>)"
| reachable_gsi1: "reachable c \<Longrightarrow> reachable (c\<lparr>gsi1 := g\<rparr>)"
| reachable_CreateUser:
    "reachable c \<Longrightarrow> reachable (snd (service_CreateUser c now displayName email))"
| reachable_CreateRole:
    "reachable c \<Longrightarrow> reachable (snd (service_CreateRole c now displayName description))"
| reachable_CreatePermission:
    "reachable c \<Longrightarrow>
     reachable (snd (service_CreatePermission c now ident displayName description))"
| reachable_AssignRoleToUser:
    "reachable c \<Longrightarrow> reachable (snd (service_AssignRoleToUser c now userID roleID))"
| reachable_RemoveRoleFromUser:
    "reachable c \<Longrightarrow> reachable (snd (service_RemoveRoleFromUser c userID roleID))"
| reachable_AssignPermissionToRole:
    "reachable c \<Longrightarrow> reachable (snd (service_AssignPermissionToRole c roleID permissionID))"

text \<open>
  What holds of every reachable state: each item of the table was written by one of the
  four writers, and both ends of every edge have their metadata item.
\<close>

definition written_item :: "Item \<Rightarrow> bool" where
  "written_item it \<longleftrightarrow>
     (\<exists>u. it = marshalled (UserItem (userToItem u))) \<or>
     (\<exists>r. it = marshalled (RoleItem (roleToItem r))) \<or>
     (\<exists>p. it = marshalled (PermissionItem (permissionToItem p))) \<or>
     (\<exists>u r t. it = edge_item u r t)"

definition store_inv :: "Item list \<Rightarrow> bool" where
  "store_inv rows \<longleftrightarrow>
     (\<forall>it \<in> set rows. written_item it) \<and>
     (\<forall>u r t. edge_item u r t \<in> set rows \<longrightarrow>
        has_key rows (UserPrefix @ u, MetadataPrefix @ u) \<and>
        has_key rows (RolePrefix @ r, MetadataPrefix @ r))"

text \<open>
  What one item of the table adds to the result of \<^verbatim>\<open>ListAllUsers\<close>: when its \<open>EntityType\<close>
  is the one the index is queried for and it has an \<open>EntityID\<close>, the user that
  \<^verbatim>\<open>GetUserByID\<close> finds under that id, if any.
\<close>

definition listed_user :: "Client \<Rightarrow> Item \<Rightarrow> User list" where
  "listed_user c it =
     (case (it ''EntityType'', it ''EntityID'') of
        (Some (S et), Some (S i)) \<Rightarrow>
          if et = EntityTypeUser
          then (case repo_GetUserByID c i of Inl err \<Rightarrow> [] | Inr user \<Rightarrow> [user])
          else []
      | _ \<Rightarrow> [])"

section \<open>A run of the service\<close>

text \<open>
  The scenario of the specification, on a table that starts empty: a user, a role and a
  permission are created, the permission is assigned to the role and the role to the
  user, and the role is removed from the user again.
\<close>

definition store0 :: Client where
  "store0 = \<lparr>table = [], up = True, gsi1 = False\<rparr>"

definition store1 :: Client where
  "store1 = snd (service_CreateUser store0 1 ''Alice'' ''alice@example.com'')"

definition store2 :: Client where
  "store2 = snd (service_CreateRole store1 2 ''admin'' ''Administrator'')"

definition store3 :: Client where
  "store3 = snd (service_CreatePermission store2 3 ''document:create'' ''Create Document'' [])"

definition store4 :: Client where
  "store4 = snd (service_AssignPermissionToRole store3 ''role-admin'' ''document:create'')"

definition store5 :: Client where
  "store5 = snd (service_AssignRoleToUser store4 4 ''user-alice@example.com'' ''role-admin'')"

definition store6 :: Client where
  "store6 = snd (service_RemoveRoleFromUser store5 ''user-alice@example.com'' ''role-admin'')"

definition alice :: User where
  "alice = \<lparr>User_ID = ''user-alice@example.com'', User_DisplayName = ''Alice'',
            User_Email = ''alice@example.com'', User_CreatedAt = 1, User_UpdatedAt = 1\<rparr>"

definition admin :: Role where
  "admin = \<lparr>Role_ID = ''role-admin'', Role_DisplayName = ''admin'',
            Role_Description = ''Administrator'', Role_CreatedAt = 2, Role_UpdatedAt = 2\<rparr>"

definition document_create :: Permission where
  "document_create =
     \<lparr>Permission_ID = ''document:create'', Permission_DisplayName = ''Create Document'',
      Permission_Description = [], Permission_CreatedAt = 3, Permission_UpdatedAt = 3\<rparr>"

text \<open>A permission whose id is the id of a user, created after that user.\<close>

definition shadow :: Permission where
  "shadow =
     \<lparr>Permission_ID = ''user-alice@example.com'', Permission_DisplayName = ''Shadow'',
      Permission_Description = [], Permission_CreatedAt = 3, Permission_UpdatedAt = 3\<rparr>"

definition store1p :: Client where
  "store1p = snd (service_CreatePermission store1 3 ''user-alice@example.com'' ''Shadow'' [])"

text \<open>A user whose email holds the separator.\<close>

definition eve :: User where
  "eve = \<lparr>User_ID = ''user-x#y@example.com'', User_DisplayName = ''Eve'',
          User_Email = ''x#y@example.com'', User_CreatedAt = 1, User_UpdatedAt = 1\<rparr>"

text \<open>
  The run on a table that has the index \<open>GSI1\<close>; and, on such a table, two edges that the
  repository writes when it is called without the service: one from a user that was never
  created, one to a role that was never created.
\<close>

definition store5g :: Client where
  "store5g = store5\<lparr>gsi1 := True\<rparr>"

definition store2g :: Client where
  "store2g = store2\<lparr>gsi1 := True\<rparr>"

definition store2e :: Client where
  "store2e =
     snd (repo_AssignRoleToUser
            (snd (repo_AssignRoleToUser store2g 4 ''user-ghost'' ''role-admin''))
            5 ''user-alice@example.com'' ''role-ghost'')"

section \<open>Facts about the store and the marshalling\<close>

subsection \<open>Prefixes and slices\<close>

text \<open>
  The prefixes are pairwise different at their first letters, so keys of different kinds never meet.
\<close>

lemmas prefix_defs = EntityTypeUser_def MetadataPrefix_def UserPrefix_def RolePrefix_def PermissionPrefix_def

lemma prefixes_differ [simp]:
  "UserPrefix @ a \<noteq> RolePrefix @ b" "RolePrefix @ a \<noteq> UserPrefix @ b"
  "UserPrefix @ a \<noteq> MetadataPrefix @ b" "MetadataPrefix @ a \<noteq> UserPrefix @ b"
  "UserPrefix @ a \<noteq> PermissionPrefix @ b" "PermissionPrefix @ a \<noteq> UserPrefix @ b"
  "RolePrefix @ a \<noteq> MetadataPrefix @ b" "MetadataPrefix @ a \<noteq> RolePrefix @ b"
  "RolePrefix @ a \<noteq> PermissionPrefix @ b" "PermissionPrefix @ a \<noteq> RolePrefix @ b"
  "MetadataPrefix @ a \<noteq> PermissionPrefix @ b" "PermissionPrefix @ a \<noteq> MetadataPrefix @ b"
  by (simp_all add: prefix_defs)

lemma prefix_MetadataPrefix [simp]:
  "\<not> prefix RolePrefix (MetadataPrefix @ x)" "\<not> prefix UserPrefix (RolePrefix @ x)"
  "\<not> prefix UserPrefix (MetadataPrefix @ x)"
  by (simp_all add: prefix_defs)

lemma slice_from_append [simp]: "slice_from (p @ x) (length p) = Inr x"
  by (simp add: slice_from_def)

subsection \<open>Marshalling\<close>

text \<open>
  The attributes of the items that the repository writes, and what unmarshalling reads back from them.
\<close>

lemma MarshalMap_marshalled: "MarshalMap x = Inr (marshalled x)"
  by (cases x) (simp_all add: marshalled_def)

lemma item_key_user [simp]:
  "item_key (marshalled (UserItem (userToItem u))) = Some (UserPrefix @ User_ID u, MetadataPrefix @ User_ID u)"
  by (simp add: marshalled_def userToItem_def marshal_baseItem_def put_omitempty_def item_key_def prefix_defs)

lemma item_key_role [simp]:
  "item_key (marshalled (RoleItem (roleToItem r))) = Some (RolePrefix @ Role_ID r, MetadataPrefix @ Role_ID r)"
  by (simp add: marshalled_def roleToItem_def marshal_baseItem_def put_omitempty_def item_key_def prefix_defs)

lemma item_key_permission [simp]:
  "item_key (marshalled (PermissionItem (permissionToItem p))) = Some (RolePrefix @ Permission_ID p, MetadataPrefix @ Permission_ID p)"
  by (simp add: marshalled_def permissionToItem_def marshal_baseItem_def put_omitempty_def item_key_def prefix_defs)

lemma item_key_edge [simp]:
  "item_key (edge_item u r t) = Some (UserPrefix @ u, RolePrefix @ r)"
  by (simp add: edge_item_def item_key_def prefix_defs)

lemma keys_user [simp]:
  "marshalled (UserItem (userToItem u)) ''PK'' = Some (S (UserPrefix @ User_ID u))"
  "marshalled (UserItem (userToItem u)) ''SK'' = Some (S (MetadataPrefix @ User_ID u))"
  "marshalled (UserItem (userToItem u)) ''EntityType'' = Some (S EntityTypeUser)"
  "marshalled (UserItem (userToItem u)) ''EntityID'' = Some (S (User_ID u))"
  by (simp_all add: marshalled_def userToItem_def marshal_baseItem_def put_omitempty_def prefix_defs)

lemma keys_role [simp]:
  "marshalled (RoleItem (roleToItem r)) ''PK'' = Some (S (RolePrefix @ Role_ID r))"
  "marshalled (RoleItem (roleToItem r)) ''SK'' = Some (S (MetadataPrefix @ Role_ID r))"
  "marshalled (RoleItem (roleToItem r)) ''EntityType'' = Some (S EntityTypeUser)"
  "marshalled (RoleItem (roleToItem r)) ''EntityID'' = Some (S (Role_ID r))"
  by (simp_all add: marshalled_def roleToItem_def marshal_baseItem_def put_omitempty_def prefix_defs)

lemma keys_permission [simp]:
  "marshalled (PermissionItem (permissionToItem p)) ''PK'' = Some (S (RolePrefix @ Permission_ID p))"
  "marshalled (PermissionItem (permissionToItem p)) ''SK'' = Some (S (MetadataPrefix @ Permission_ID p))"
  "marshalled (PermissionItem (permissionToItem p)) ''EntityType'' = Some (S EntityTypeUser)"
  "marshalled (PermissionItem (permissionToItem p)) ''EntityID'' = Some (S (Permission_ID p))"
  by (simp_all add: marshalled_def permissionToItem_def marshal_baseItem_def put_omitempty_def prefix_defs)

lemma keys_edge [simp]:
  "edge_item u r t ''PK'' = Some (S (UserPrefix @ u))"
  "edge_item u r t ''SK'' = Some (S (RolePrefix @ r))"
  "edge_item u r t ''EntityType'' = Some (S ''UserRoleAssignment'')"
  "edge_item u r t ''EntityID'' = None"
  by (simp_all add: edge_item_def)

lemma unmarshal_user [simp]:
  "UnmarshalMap_userItem (marshalled (UserItem (userToItem u))) = Inr (userToItem u)"
  by (simp add: marshalled_def userToItem_def marshal_baseItem_def put_omitempty_def UnmarshalMap_userItem_def UnmarshalMap_baseItem_def field_string_def field_time_def prefix_defs)

lemma itemToUser_userToItem [simp]: "itemToUser (userToItem u) = u"
  by (simp add: itemToUser_def userToItem_def)

lemma unmarshal_role [simp]:
  "UnmarshalMap_roleItem (marshalled (RoleItem (roleToItem r))) = Inr (roleToItem r)"
  by (simp add: marshalled_def roleToItem_def marshal_baseItem_def put_omitempty_def UnmarshalMap_roleItem_def UnmarshalMap_baseItem_def field_string_def field_time_def prefix_defs)

lemma itemToRole_roleToItem [simp]: "itemToRole (roleToItem r) = r"
  by (simp add: itemToRole_def roleToItem_def)

lemma unmarshal_permission_as_role:
  "\<exists>ri. UnmarshalMap_roleItem (marshalled (PermissionItem (permissionToItem p))) = Inr ri \<and> roleItem_ID ri = Permission_ID p"
  by (simp add: marshalled_def permissionToItem_def marshal_baseItem_def put_omitempty_def UnmarshalMap_roleItem_def UnmarshalMap_baseItem_def field_string_def field_time_def prefix_defs)

lemma unmarshal_permission [simp]:
  "UnmarshalMap_permissionItem (marshalled (PermissionItem (permissionToItem r))) = Inr (permissionToItem r)"
  by (simp add: marshalled_def permissionToItem_def marshal_baseItem_def put_omitempty_def UnmarshalMap_permissionItem_def UnmarshalMap_baseItem_def field_string_def field_time_def prefix_defs)

lemma unmarshal_base_edge [simp]:
  "UnmarshalMap_baseItem (edge_item u r t) = Inr \<lparr>PK = UserPrefix @ u, SK = RolePrefix @ r, EntityType = ''UserRoleAssignment''\<rparr>"
  by (simp add: edge_item_def UnmarshalMap_baseItem_def field_string_def)

lemma edge_item_eq: "edge_item u r t = edge_item u' r' t' \<longleftrightarrow> u = u' \<and> r = r' \<and> t = t'"
proof
  assume e: "edge_item u r t = edge_item u' r' t'"
  from e have "edge_item u r t ''PK'' = edge_item u' r' t' ''PK''" by simp
  moreover from e have "edge_item u r t ''SK'' = edge_item u' r' t' ''SK''" by simp
  moreover from e have "edge_item u r t ''AssignedAt'' = edge_item u' r' t' ''AssignedAt''" by simp
  ultimately show "u = u' \<and> r = r' \<and> t = t'"
    by (simp add: edge_item_def)
qed simp

lemma metadata_not_edge [simp]:
  "marshalled (UserItem (userToItem x)) \<noteq> edge_item u r t"
  "marshalled (RoleItem (roleToItem y)) \<noteq> edge_item u r t"
  "marshalled (PermissionItem (permissionToItem z)) \<noteq> edge_item u r t"
proof -
  have "item_key (marshalled (UserItem (userToItem x))) \<noteq> item_key (edge_item u r t)"
    by simp
  then show "marshalled (UserItem (userToItem x)) \<noteq> edge_item u r t" by metis
  have "item_key (marshalled (RoleItem (roleToItem y))) \<noteq> item_key (edge_item u r t)"
    by simp
  then show "marshalled (RoleItem (roleToItem y)) \<noteq> edge_item u r t" by metis
  have "item_key (marshalled (PermissionItem (permissionToItem z))) \<noteq> item_key (edge_item u r t)"
    by simp
  then show "marshalled (PermissionItem (permissionToItem z)) \<noteq> edge_item u r t" by metis
qed

lemma item_key_attrs:
  assumes "item_key it \<noteq> None"
  shows "\<exists>pk sk. it ''PK'' = Some (S pk) \<and> it ''SK'' = Some (S sk)"
  using assms by (auto simp: item_key_def split: option.splits AttributeValue.splits if_splits)

lemma unmarshal_projected:
  assumes "it ''PK'' = Some (S pk)" and "it ''SK'' = Some (S sk)"
    and "it ''EntityType'' = Some (S et)" and "it ''EntityID'' = Some (S i)"
  shows "UnmarshalMap_userItem (project ''EntityType'' ''EntityID'' True it) =
           Inr \<lparr>PK = pk, SK = sk, EntityType = et, userItem_ID = i, userItem_DisplayName = [],
                 userItem_Email = [], userItem_CreatedAt = 0, userItem_UpdatedAt = 0\<rparr>"
  using assms
  by (simp add: project_def UnmarshalMap_userItem_def UnmarshalMap_baseItem_def
      field_string_def field_time_def restrict_map_def)

subsection \<open>Looking a key up\<close>

lemma lookup_key_Nil [simp]: "lookup_key [] k = None"
  by (simp add: lookup_key_def)

lemma lookup_key_Cons:
  "lookup_key (it # rows) k = (if item_key it = Some k then Some it else lookup_key rows k)"
  by (simp add: lookup_key_def)

lemma lookup_key_Some: "lookup_key rows k = Some it \<Longrightarrow> it \<in> set rows \<and> item_key it = Some k"
  unfolding lookup_key_def by (auto simp: find_Some_iff)

lemma lookup_key_None: "lookup_key rows k = None \<longleftrightarrow> (\<forall>it \<in> set rows. item_key it \<noteq> Some k)"
  unfolding lookup_key_def by (auto simp: find_None_iff)

lemma lookup_key_filter:
  "lookup_key (filter (\<lambda>row. item_key row \<noteq> Some k) rows) k' =
     (if k' = k then None else lookup_key rows k')"
  by (induction rows) (auto simp: lookup_key_def)

lemma filter_absent: "lookup_key rows k = None \<Longrightarrow> filter (\<lambda>row. item_key row \<noteq> Some k) rows = rows"
  by (simp add: lookup_key_None)

lemma has_key_iff: "has_key rows k \<longleftrightarrow> (\<exists>it \<in> set rows. item_key it = Some k)"
  unfolding has_key_def by (simp add: lookup_key_None)

lemma has_key_Nil [simp]: "\<not> has_key [] k"
  by (simp add: has_key_iff)

lemma has_key_Cons [simp]: "has_key (it # rows) k \<longleftrightarrow> item_key it = Some k \<or> has_key rows k"
  by (auto simp: has_key_iff)

lemma has_key_put:
  assumes "has_key rows k'" and "item_key it = Some k"
  shows "has_key (it # filter (\<lambda>row. item_key row \<noteq> Some k) rows) k'"
  using assms by (cases "k' = k") (auto simp: has_key_iff)

subsection \<open>The calls of the client\<close>

lemma project_all [simp]: "project h r False = (\<lambda>it. it)"
  by (rule ext) (simp add: project_def)

lemma Query_table_up:
  "up c \<Longrightarrow> Query c None (KeyEqBeginsWith ''PK'' v ''SK'' p) =
     Inr (filter (\<lambda>it. key_condition_holds (KeyEqBeginsWith ''PK'' v ''SK'' p) it) (table c))"
proof -
  have "\<And>it. key_condition_holds (KeyEqBeginsWith ''PK'' v ''SK'' p) it \<Longrightarrow> in_index ''PK'' ''SK'' it"
    by (auto simp: in_index_def split: option.splits AttributeValue.splits)
  then have "filter (\<lambda>it. in_index ''PK'' ''SK'' it \<and> key_condition_holds (KeyEqBeginsWith ''PK'' v ''SK'' p) it) (table c)
      = filter (\<lambda>it. key_condition_holds (KeyEqBeginsWith ''PK'' v ''SK'' p) it) (table c)"
    by (intro filter_cong) auto
  moreover assume "up c"
  ultimately show ?thesis
    by (simp add: Query_def index_schema_def del: key_condition_holds.simps)
qed

lemma Query_GSI1_up:
  "up c \<Longrightarrow> gsi1 c \<Longrightarrow> Query c (Some GSI1Name) (KeyEqBeginsWith ''SK'' v ''PK'' p) =
     Inr (filter (\<lambda>it. key_condition_holds (KeyEqBeginsWith ''SK'' v ''PK'' p) it) (table c))"
proof -
  have "\<And>it. key_condition_holds (KeyEqBeginsWith ''SK'' v ''PK'' p) it \<Longrightarrow> in_index ''SK'' ''PK'' it"
    by (auto simp: in_index_def split: option.splits AttributeValue.splits)
  then have "filter (\<lambda>it. in_index ''SK'' ''PK'' it \<and> key_condition_holds (KeyEqBeginsWith ''SK'' v ''PK'' p) it) (table c)
      = filter (\<lambda>it. key_condition_holds (KeyEqBeginsWith ''SK'' v ''PK'' p) it) (table c)"
    by (intro filter_cong) auto
  moreover assume "up c" and "gsi1 c"
  ultimately show ?thesis
    by (simp add: Query_def index_schema_def del: key_condition_holds.simps)
qed

lemma Query_GSI1_absent:
  "up c \<Longrightarrow> \<not> gsi1 c \<Longrightarrow> Query c (Some GSI1Name) kc = Inl ValidationException"
  by (simp add: Query_def index_schema_def)

lemma Query_down: "\<not> up c \<Longrightarrow> Query c idx kc = Inl ServiceUnavailable"
  by (simp add: Query_def)

lemma createItem_down:
  "\<not> up c \<Longrightarrow> createItem c x = (Some (Errorf ''failed to put item'' ServiceUnavailable), c)"
  by (simp add: createItem_def MarshalMap_marshalled PutItem_def)

lemma createItem_exists:
  assumes "up c" and "item_key (marshalled x) = Some k" and "has_key (table c) k"
  shows "createItem c x = (Some ErrAlreadyExists, c)"
proof -
  from assms(3) obtain old where old: "lookup_key (table c) k = Some old"
    by (auto simp: has_key_def)
  then have "old ''PK'' \<noteq> None"
    by (auto dest!: lookup_key_Some simp: item_key_def split: option.splits)
  with assms(1,2) old show ?thesis
    by (simp add: createItem_def MarshalMap_marshalled PutItem_def)
qed

lemma createItem_new:
  assumes "up c" and "item_key (marshalled x) = Some k" and "\<not> has_key (table c) k"
  shows "createItem c x = (None, c\<lparr>table := marshalled x # table c\<rparr>)"
  using assms
  by (simp add: createItem_def MarshalMap_marshalled PutItem_def has_key_def filter_absent)

lemma createItem_cases:
  assumes "item_key (marshalled x) = Some k"
  shows "snd (createItem c x) = c \<or> snd (createItem c x) = c\<lparr>table := marshalled x # table c\<rparr>"
proof (cases "up c")
  case False
  then show ?thesis by (simp add: createItem_down)
next
  case True
  then show ?thesis
    using createItem_exists [OF True assms] createItem_new [OF True assms]
    by (cases "has_key (table c) k") simp_all
qed

subsection \<open>The methods of the repository\<close>

lemma repo_CreateUser_exists:
  assumes "up c" and "has_key (table c) (UserPrefix @ User_ID u, MetadataPrefix @ User_ID u)"
  shows "repo_CreateUser c now u =
           (u\<lparr>User_CreatedAt := now, User_UpdatedAt := now\<rparr>, Some ErrAlreadyExists, c)"
  using assms by (simp add: repo_CreateUser_def Let_def createItem_exists)

lemma repo_CreateRole_exists:
  assumes "up c" and "has_key (table c) (RolePrefix @ Role_ID r, MetadataPrefix @ Role_ID r)"
  shows "repo_CreateRole c now r =
           (r\<lparr>Role_CreatedAt := now, Role_UpdatedAt := now\<rparr>, Some ErrAlreadyExists, c)"
  using assms by (simp add: repo_CreateRole_def Let_def createItem_exists)

lemma repo_CreatePermission_exists:
  assumes "up c"
    and "has_key (table c) (RolePrefix @ Permission_ID p, MetadataPrefix @ Permission_ID p)"
  shows "repo_CreatePermission c now p =
           (p\<lparr>Permission_CreatedAt := now, Permission_UpdatedAt := now\<rparr>, Some ErrAlreadyExists, c)"
  using assms by (simp add: repo_CreatePermission_def Let_def createItem_exists)

lemma repo_CreateUser_new:
  assumes "up c" and "\<not> has_key (table c) (UserPrefix @ User_ID u, MetadataPrefix @ User_ID u)"
  shows "repo_CreateUser c now u =
           (u\<lparr>User_CreatedAt := now, User_UpdatedAt := now\<rparr>, None,
            c\<lparr>table := marshalled (UserItem (userToItem (u\<lparr>User_CreatedAt := now, User_UpdatedAt := now\<rparr>))) # table c\<rparr>)"
  using assms by (simp add: repo_CreateUser_def Let_def createItem_new)

lemma repo_CreateRole_new:
  assumes "up c" and "\<not> has_key (table c) (RolePrefix @ Role_ID r, MetadataPrefix @ Role_ID r)"
  shows "repo_CreateRole c now r =
           (r\<lparr>Role_CreatedAt := now, Role_UpdatedAt := now\<rparr>, None,
            c\<lparr>table := marshalled (RoleItem (roleToItem (r\<lparr>Role_CreatedAt := now, Role_UpdatedAt := now\<rparr>))) # table c\<rparr>)"
  using assms by (simp add: repo_CreateRole_def Let_def createItem_new)

lemma repo_CreatePermission_new:
  assumes "up c"
    and "\<not> has_key (table c) (RolePrefix @ Permission_ID p, MetadataPrefix @ Permission_ID p)"
  shows "repo_CreatePermission c now p =
           (p\<lparr>Permission_CreatedAt := now, Permission_UpdatedAt := now\<rparr>, None,
            c\<lparr>table := marshalled (PermissionItem (permissionToItem (p\<lparr>Permission_CreatedAt := now, Permission_UpdatedAt := now\<rparr>))) # table c\<rparr>)"
  using assms by (simp add: repo_CreatePermission_def Let_def createItem_new)

lemma repo_GetUserByID_up:
  "up c \<Longrightarrow> repo_GetUserByID c u =
     (case lookup_key (table c) (UserPrefix @ u, MetadataPrefix @ u) of
        None \<Rightarrow> Inl ErrNotFound
      | Some out \<Rightarrow>
          (case UnmarshalMap_userItem out of
             Inl err \<Rightarrow> Inl (Errorf ''failed to unmarshal user item'' err)
           | Inr userItem \<Rightarrow> Inr (itemToUser userItem)))"
  by (simp add: repo_GetUserByID_def getItemById_def GetItem_def split: option.splits)

lemma repo_GetRoleByID_up:
  "up c \<Longrightarrow> repo_GetRoleByID c r =
     (case lookup_key (table c) (RolePrefix @ r, MetadataPrefix @ r) of
        None \<Rightarrow> Inl ErrNotFound
      | Some out \<Rightarrow>
          (case UnmarshalMap_roleItem out of
             Inl err \<Rightarrow> Inl (Errorf ''failed to unmarshal user item'' err)
           | Inr roleItem \<Rightarrow> Inr (itemToRole roleItem)))"
  by (simp add: repo_GetRoleByID_def getItemById_def GetItem_def split: option.splits)

lemma repo_GetPermissionByID_up:
  "up c \<Longrightarrow> repo_GetPermissionByID c p =
     (case lookup_key (table c) (PermissionPrefix @ p, MetadataPrefix @ p) of
        None \<Rightarrow> Inl ErrNotFound
      | Some out \<Rightarrow>
          (case UnmarshalMap_permissionItem out of
             Inl err \<Rightarrow> Inl (Errorf ''failed to unmarshal user item'' err)
           | Inr permissionItem \<Rightarrow> Inr (itemToPermission permissionItem)))"
  by (simp add: repo_GetPermissionByID_def getItemById_def GetItem_def split: option.splits)

lemma repo_GetUserByID_has_key:
  assumes "repo_GetUserByID c u = Inr x"
  shows "up c \<and> has_key (table c) (UserPrefix @ u, MetadataPrefix @ u)"
  using assms
  by (cases "up c")
     (auto simp: repo_GetUserByID_def getItemById_def GetItem_def has_key_def
       split: option.splits sum.splits)

lemma repo_GetRoleByID_has_key:
  assumes "repo_GetRoleByID c r = Inr x"
  shows "up c \<and> has_key (table c) (RolePrefix @ r, MetadataPrefix @ r)"
  using assms
  by (cases "up c")
     (auto simp: repo_GetRoleByID_def getItemById_def GetItem_def has_key_def
       split: option.splits sum.splits)

lemma GetUserByID_absent:
  assumes "up c" and "\<not> has_key (table c) (UserPrefix @ i, MetadataPrefix @ i)"
  shows "repo_GetUserByID c i = Inl ErrNotFound"
  using assms by (simp add: repo_GetUserByID_up has_key_def)

lemma repo_AssignRoleToUser_up:
  "up c \<Longrightarrow> repo_AssignRoleToUser c now u r =
     (None, c\<lparr>table := edge_item u r now #
                filter (\<lambda>row. item_key row \<noteq> Some (UserPrefix @ u, RolePrefix @ r)) (table c)\<rparr>)"
  using item_key_edge [of u r now]
  by (simp add: repo_AssignRoleToUser_def PutItem_def edge_item_def)

lemma repo_AssignRoleToUser_down:
  "\<not> up c \<Longrightarrow> repo_AssignRoleToUser c now u r =
     (Some (Errorf ''failed to assign role to user'' ServiceUnavailable), c)"
  by (simp add: repo_AssignRoleToUser_def PutItem_def)

lemma repo_RemoveRoleFromUser_up:
  "up c \<Longrightarrow> repo_RemoveRoleFromUser c u r =
     (None, c\<lparr>table := filter (\<lambda>row. item_key row \<noteq> Some (UserPrefix @ u, RolePrefix @ r)) (table c)\<rparr>)"
  by (simp add: repo_RemoveRoleFromUser_def DeleteItem_def)

lemma repo_RemoveRoleFromUser_down:
  "\<not> up c \<Longrightarrow> repo_RemoveRoleFromUser c u r =
     (Some (Errorf ''failed to remove role from user'' ServiceUnavailable), c)"
  by (simp add: repo_RemoveRoleFromUser_def DeleteItem_def)

lemma GetUserRoles_items_total:
  assumes "\<forall>it \<in> set items. \<exists>s. it ''SK'' = Some (S s) \<and> prefix RolePrefix s"
  shows "\<exists>roles. GetUserRoles_items c items acc = Inr roles"
  using assms
proof (induction items arbitrary: acc)
  case Nil
  then show ?case by simp
next
  case (Cons it items)
  then obtain s where s: "it ''SK'' = Some (S s)" "prefix RolePrefix s"
    by auto
  have len: "length RolePrefix \<le> length s"
    using s(2) by (simp add: prefix_length_le)
  have base: "\<And>b. UnmarshalMap_baseItem it = Inr b \<Longrightarrow> SK b = s"
    using s(1)
    by (auto simp: UnmarshalMap_baseItem_def field_string_def
        split: option.splits AttributeValue.splits)
  from Cons have IH: "\<And>acc. \<exists>roles. GetUserRoles_items c items acc = Inr roles"
    by simp
  show ?case
    using IH len base
    by (auto simp: slice_from_def split: sum.splits)
qed

lemma repo_GetUserRoles_total:
  assumes "up c"
  shows "\<exists>roles. repo_GetUserRoles c u = Inr roles"
  using assms
  by (simp add: repo_GetUserRoles_def Query_table_up del: key_condition_holds.simps)
     (rule GetUserRoles_items_total, auto split: option.splits AttributeValue.splits)

lemma GetUserRoles_items_cong:
  assumes "\<And>x. repo_GetRoleByID c x = repo_GetRoleByID c' x"
    and "map UnmarshalMap_baseItem items = map UnmarshalMap_baseItem items'"
  shows "GetUserRoles_items c items acc = GetUserRoles_items c' items' acc"
  using assms(2)
proof (induction items arbitrary: items' acc)
  case Nil
  then show ?case by simp
next
  case (Cons it items)
  then obtain it' rest where items': "items' = it' # rest"
    and hd: "UnmarshalMap_baseItem it = UnmarshalMap_baseItem it'"
    and tl: "map UnmarshalMap_baseItem items = map UnmarshalMap_baseItem rest"
    by (cases items') auto
  from Cons.IH [OF tl] show ?case
    by (simp add: items' hd assms(1) split: sum.splits)
qed

lemma assigned_roles_Nil:
  assumes "assigned_roles c u = []"
  shows "filter (\<lambda>it. key_condition_holds (KeyEqBeginsWith ''PK'' (UserPrefix @ u) ''SK'' RolePrefix) it) (table c) = []"
proof -
  have "\<not> key_condition_holds (KeyEqBeginsWith ''PK'' (UserPrefix @ u) ''SK'' RolePrefix) it"
    if "it \<in> set (table c)" for it
  proof
    assume "key_condition_holds (KeyEqBeginsWith ''PK'' (UserPrefix @ u) ''SK'' RolePrefix) it"
    then obtain s where s: "it ''PK'' = Some (S (UserPrefix @ u))" "it ''SK'' = Some (S s)"
      "prefix RolePrefix s"
      by (auto split: option.splits AttributeValue.splits)
    then have "s \<noteq> []" by (auto simp: RolePrefix_def)
    with s have "item_key it = Some (UserPrefix @ u, s)"
      by (simp add: item_key_def UserPrefix_def)
    with s(3) that assms show False
      by (auto simp: assigned_roles_def)
  qed
  then show ?thesis by (simp add: filter_empty_conv del: key_condition_holds.simps)
qed

lemma concat_map_filter_empty:
  assumes "\<And>x. \<not> P x \<Longrightarrow> f x = []"
  shows "concat (map f (filter P xs)) = concat (map f xs)"
  using assms by (induction xs) auto

lemma ListAllUsers_items_eq:
  assumes "\<forall>it \<in> set rows. item_key it \<noteq> None \<and> in_index ''EntityType'' ''EntityID'' it \<and>
             key_condition_holds (KeyEq ''EntityType'' EntityTypeUser) it"
  shows "ListAllUsers_items c (map (project ''EntityType'' ''EntityID'' True) rows) acc =
           acc @ concat (map (listed_user c) rows)"
  using assms
proof (induction rows arbitrary: acc)
  case Nil
  then show ?case by simp
next
  case (Cons it rows)
  then have "item_key it \<noteq> None" and idx: "in_index ''EntityType'' ''EntityID'' it"
    and et: "it ''EntityType'' = Some (S EntityTypeUser)"
    by simp_all
  then obtain pk sk where k: "it ''PK'' = Some (S pk)" "it ''SK'' = Some (S sk)"
    using item_key_attrs by blast
  from idx obtain i where i: "it ''EntityID'' = Some (S i)"
    by (auto simp: in_index_def split: option.splits AttributeValue.splits)
  from Cons have IH: "\<And>acc. ListAllUsers_items c (map (project ''EntityType'' ''EntityID'' True) rows) acc =
           acc @ concat (map (listed_user c) rows)"
    by simp
  have hd: "listed_user c it = (case repo_GetUserByID c i of Inl err \<Rightarrow> [] | Inr user \<Rightarrow> [user])"
    by (simp add: listed_user_def et i)
  show ?case
    by (simp add: unmarshal_projected [OF k et i] IH hd split: sum.splits)
qed

lemma repo_ListAllUsers_eq:
  assumes "up c" and "\<forall>it \<in> set (table c). item_key it \<noteq> None"
  shows "repo_ListAllUsers c = Inr (concat (map (listed_user c) (table c)))"
proof -
  let ?P = "\<lambda>it. in_index ''EntityType'' ''EntityID'' it \<and>
              key_condition_holds (KeyEq ''EntityType'' EntityTypeUser) it"
  have q: "Query c (Some EntityTypeIndex) (KeyEq ''EntityType'' EntityTypeUser) =
        Inr (map (project ''EntityType'' ''EntityID'' True) (filter ?P (table c)))"
    using assms(1)
    by (simp add: Query_def index_schema_def EntityTypeIndex_def GSI1Name_def)
  have "\<forall>it \<in> set (filter ?P (table c)). item_key it \<noteq> None \<and> ?P it"
    using assms(2) by simp
  from ListAllUsers_items_eq [OF this, of c "[]"]
  have "ListAllUsers_items c (map (project ''EntityType'' ''EntityID'' True) (filter ?P (table c))) [] =
        concat (map (listed_user c) (filter ?P (table c)))"
    by simp
  moreover have "concat (map (listed_user c) (filter ?P (table c))) =
        concat (map (listed_user c) (table c))"
    by (rule concat_map_filter_empty)
       (auto simp: listed_user_def in_index_def split: option.splits AttributeValue.splits)
  ultimately show ?thesis
    by (simp add: repo_ListAllUsers_def q del: key_condition_holds.simps)
qed

subsection \<open>The methods of the service\<close>

lemma service_CreateUser_new:
  assumes "up c"
    and "\<not> has_key (table c) (UserPrefix @ ''user-'' @ email, MetadataPrefix @ ''user-'' @ email)"
  shows "service_CreateUser c now displayName email =
           (Inr \<lparr>User_ID = ''user-'' @ email, User_DisplayName = displayName, User_Email = email,
                 User_CreatedAt = now, User_UpdatedAt = now\<rparr>,
            c\<lparr>table := marshalled (UserItem (userToItem
                   \<lparr>User_ID = ''user-'' @ email, User_DisplayName = displayName,
                    User_Email = email, User_CreatedAt = now, User_UpdatedAt = now\<rparr>)) # table c\<rparr>)"
  using assms by (simp add: service_CreateUser_def Let_def repo_CreateUser_new)

lemma service_CreateRole_new:
  assumes "up c"
    and "\<not> has_key (table c) (RolePrefix @ ''role-'' @ displayName, MetadataPrefix @ ''role-'' @ displayName)"
  shows "service_CreateRole c now displayName description =
           (Inr \<lparr>Role_ID = ''role-'' @ displayName, Role_DisplayName = displayName,
                 Role_Description = description, Role_CreatedAt = now, Role_UpdatedAt = now\<rparr>,
            c\<lparr>table := marshalled (RoleItem (roleToItem
                   \<lparr>Role_ID = ''role-'' @ displayName, Role_DisplayName = displayName,
                    Role_Description = description, Role_CreatedAt = now,
                    Role_UpdatedAt = now\<rparr>)) # table c\<rparr>)"
  using assms by (simp add: service_CreateRole_def Let_def repo_CreateRole_new)

lemma service_CreatePermission_new:
  assumes "up c"
    and "\<not> has_key (table c) (RolePrefix @ ident, MetadataPrefix @ ident)"
  shows "service_CreatePermission c now ident displayName description =
           (Inr \<lparr>Permission_ID = ident, Permission_DisplayName = displayName,
                 Permission_Description = description, Permission_CreatedAt = now,
                 Permission_UpdatedAt = now\<rparr>,
            c\<lparr>table := marshalled (PermissionItem (permissionToItem
                   \<lparr>Permission_ID = ident, Permission_DisplayName = displayName,
                    Permission_Description = description, Permission_CreatedAt = now,
                    Permission_UpdatedAt = now\<rparr>)) # table c\<rparr>)"
  using assms by (simp add: service_CreatePermission_def Let_def repo_CreatePermission_new)

lemma service_CreateUser_Inr:
  assumes "service_CreateUser c now n email = (Inr u, c')"
  shows "up c \<and> \<not> has_key (table c) (UserPrefix @ ''user-'' @ email, MetadataPrefix @ ''user-'' @ email)"
proof (rule ccontr)
  assume "\<not> ?thesis"
  then consider "\<not> up c"
    | "up c" "has_key (table c) (UserPrefix @ ''user-'' @ email, MetadataPrefix @ ''user-'' @ email)"
    by blast
  then show False
  proof cases
    case 1
    with assms show False
      by (simp add: service_CreateUser_def repo_CreateUser_def Let_def createItem_down)
  next
    case 2
    with assms show False
      by (simp add: service_CreateUser_def Let_def repo_CreateUser_exists)
  qed
qed

lemma service_CreateUser_cases:
  "snd (service_CreateUser c now n e) = c \<or>
   (\<exists>u. snd (service_CreateUser c now n e) = c\<lparr>table := marshalled (UserItem (userToItem u)) # table c\<rparr>)"
proof -
  let ?u = "\<lparr>User_ID = ''user-'' @ e, User_DisplayName = n, User_Email = e,
             User_CreatedAt = now, User_UpdatedAt = now\<rparr>"
  have "snd (service_CreateUser c now n e) = snd (createItem c (UserItem (userToItem ?u)))"
    by (simp add: service_CreateUser_def repo_CreateUser_def Let_def split: prod.splits option.splits)
  with createItem_cases [of "UserItem (userToItem ?u)" _ c] show ?thesis
    by (metis item_key_user)
qed

lemma service_CreateRole_cases:
  "snd (service_CreateRole c now n d) = c \<or>
   (\<exists>r. snd (service_CreateRole c now n d) = c\<lparr>table := marshalled (RoleItem (roleToItem r)) # table c\<rparr>)"
proof -
  let ?r = "\<lparr>Role_ID = ''role-'' @ n, Role_DisplayName = n, Role_Description = d,
             Role_CreatedAt = now, Role_UpdatedAt = now\<rparr>"
  have "snd (service_CreateRole c now n d) = snd (createItem c (RoleItem (roleToItem ?r)))"
    by (simp add: service_CreateRole_def repo_CreateRole_def Let_def split: prod.splits option.splits)
  with createItem_cases [of "RoleItem (roleToItem ?r)" _ c] show ?thesis
    by (metis item_key_role)
qed

lemma service_CreatePermission_cases:
  "snd (service_CreatePermission c now i n d) = c \<or>
   (\<exists>p. snd (service_CreatePermission c now i n d) =
      c\<lparr>table := marshalled (PermissionItem (permissionToItem p)) # table c\<rparr>)"
proof -
  let ?p = "\<lparr>Permission_ID = i, Permission_DisplayName = n, Permission_Description = d,
             Permission_CreatedAt = now, Permission_UpdatedAt = now\<rparr>"
  have "snd (service_CreatePermission c now i n d) =
        snd (createItem c (PermissionItem (permissionToItem ?p)))"
    by (simp add: service_CreatePermission_def repo_CreatePermission_def Let_def
        split: prod.splits option.splits)
  with createItem_cases [of "PermissionItem (permissionToItem ?p)" _ c] show ?thesis
    by (metis item_key_permission)
qed

lemma service_AssignRoleToUser_cases:
  "snd (service_AssignRoleToUser c now u r) = c \<or>
   (has_key (table c) (UserPrefix @ u, MetadataPrefix @ u) \<and>
    has_key (table c) (RolePrefix @ r, MetadataPrefix @ r) \<and>
    snd (service_AssignRoleToUser c now u r) =
      c\<lparr>table := edge_item u r now #
           filter (\<lambda>row. item_key row \<noteq> Some (UserPrefix @ u, RolePrefix @ r)) (table c)\<rparr>)"
proof (cases "repo_GetUserByID c u")
  case (Inl a)
  then show ?thesis by (simp add: service_AssignRoleToUser_def)
next
  case u: (Inr x)
  show ?thesis
  proof (cases "repo_GetRoleByID c r")
    case (Inl a)
    with u show ?thesis by (simp add: service_AssignRoleToUser_def)
  next
    case r: (Inr y)
    from u r show ?thesis
      using repo_GetUserByID_has_key [OF u] repo_GetRoleByID_has_key [OF r]
      by (simp add: service_AssignRoleToUser_def repo_AssignRoleToUser_up)
  qed
qed

lemma service_RemoveRoleFromUser_cases:
  "snd (service_RemoveRoleFromUser c u r) = c \<or>
   snd (service_RemoveRoleFromUser c u r) =
     c\<lparr>table := filter (\<lambda>row. item_key row \<noteq> Some (UserPrefix @ u, RolePrefix @ r)) (table c)\<rparr>"
  by (cases "up c")
     (simp_all add: service_RemoveRoleFromUser_def repo_RemoveRoleFromUser_up
       repo_RemoveRoleFromUser_down)

lemma service_AssignPermissionToRole_snd:
  "snd (service_AssignPermissionToRole c r p) = c"
  by (simp add: service_AssignPermissionToRole_def repo_AssignPermissionToRole_def
      split: sum.splits)

lemma UserHasPermission_roles_id: "UserHasPermission_roles c roles m = m"
  by (induction roles arbitrary: m) (simp_all add: repo_GetRolePermissions_def)

lemma service_UserHasPermission_up:
  assumes "up c"
  shows "service_UserHasPermission c u p = Inr False"
proof -
  from assms obtain roles where "repo_GetUserRoles c u = Inr roles"
    using repo_GetUserRoles_total by blast
  then show ?thesis
    by (simp add: service_UserHasPermission_def UserHasPermission_roles_id)
qed

subsection \<open>The run\<close>

text \<open>
  The stores of the run, step by step.
\<close>

lemma store1_eq: "service_CreateUser store0 1 ''Alice'' ''alice@example.com'' = (Inr alice, store1)"
  and store1_table: "store1 = \<lparr>table = [marshalled (UserItem (userToItem alice))], up = True, gsi1 = False\<rparr>"
  by (simp_all add: store1_def store0_def alice_def service_CreateUser_new)

lemma store2_eq: "service_CreateRole store1 2 ''admin'' ''Administrator'' = (Inr admin, store2)"
  and store2_table: "store2 = \<lparr>table = [marshalled (RoleItem (roleToItem admin)), marshalled (UserItem (userToItem alice))], up = True, gsi1 = False\<rparr>"
  by (simp_all add: store2_def store1_table admin_def alice_def service_CreateRole_new prefix_defs)

lemma store3_eq: "service_CreatePermission store2 3 ''document:create'' ''Create Document'' [] = (Inr document_create, store3)"
  and store3_table: "store3 = \<lparr>table = [marshalled (PermissionItem (permissionToItem document_create)), marshalled (RoleItem (roleToItem admin)), marshalled (UserItem (userToItem alice))], up = True, gsi1 = False\<rparr>"
  by (simp_all add: store3_def store2_table admin_def alice_def document_create_def service_CreatePermission_new prefix_defs)

lemma store4_eq:
  "service_AssignPermissionToRole store3 ''role-admin'' ''document:create'' =
     (Some (Errorf ''service.AssignPermissionToRole: permission not found'' ErrNotFound), store3)"
  and store4_table: "store4 = store3"
  by (simp_all add: store4_def service_AssignPermissionToRole_def repo_GetRoleByID_up
      repo_GetPermissionByID_up store3_table lookup_key_Cons admin_def prefix_defs document_create_def)

lemma store5_eq:
  "service_AssignRoleToUser store4 4 ''user-alice@example.com'' ''role-admin'' = (None, store5)"
  and store5_table: "store5 = \<lparr>table = [edge_item ''user-alice@example.com'' ''role-admin'' 4, marshalled (PermissionItem (permissionToItem document_create)), marshalled (RoleItem (roleToItem admin)), marshalled (UserItem (userToItem alice))], up = True, gsi1 = False\<rparr>"
  by (simp_all add: store5_def store4_table service_AssignRoleToUser_def repo_GetRoleByID_up
      repo_GetUserByID_up repo_AssignRoleToUser_up store3_table lookup_key_Cons admin_def alice_def prefix_defs document_create_def)

lemma store6_eq:
  "service_RemoveRoleFromUser store5 ''user-alice@example.com'' ''role-admin'' = (None, store6)"
  and store6_table: "store6 = store3"
  by (simp_all add: store6_def store5_table service_RemoveRoleFromUser_def 
      repo_RemoveRoleFromUser_up store3_table lookup_key_Cons admin_def alice_def prefix_defs document_create_def)

lemma store1p_eq:
  "service_CreatePermission store1 3 ''user-alice@example.com'' ''Shadow'' [] = (Inr shadow, store1p)"
  and store1p_table: "store1p = \<lparr>table = [marshalled (PermissionItem (permissionToItem shadow)),
        marshalled (UserItem (userToItem alice))], up = True, gsi1 = False\<rparr>"
  by (simp_all add: store1p_def store1_table shadow_def alice_def service_CreatePermission_new
      prefix_defs)

lemma assigned_roles_store3:
  "assigned_roles store3 u = []"
  by (simp add: assigned_roles_def store3_table prefix_defs)

lemma reachable_store5: "reachable store5"
  unfolding store5_def store4_def store3_def store2_def store1_def store0_def
  by (intro reachable.intros)

subsection \<open>What holds of every reachable state\<close>

text \<open>
  Every write of the service keeps \<open>store_inv\<close>; under it a lookup of an end of an edge
  succeeds and returns the entity with the id that was asked for.
\<close>

lemma written_item_key: "written_item it \<Longrightarrow> item_key it \<noteq> None"
  by (auto simp: written_item_def)

lemma written_metadata [simp]:
  "written_item (marshalled (UserItem (userToItem x)))"
  "written_item (marshalled (RoleItem (roleToItem y)))"
  "written_item (marshalled (PermissionItem (permissionToItem z)))"
  "written_item (edge_item u r t)"
  unfolding written_item_def by blast+

lemma written_user_metadata:
  assumes "written_item it" and "item_key it = Some (UserPrefix @ u, MetadataPrefix @ u)"
  shows "\<exists>usr. it = marshalled (UserItem (userToItem usr)) \<and> User_ID usr = u"
  using assms by (auto simp: written_item_def)

lemma written_role_metadata:
  assumes "written_item it" and "item_key it = Some (RolePrefix @ r, MetadataPrefix @ r)"
  shows "(\<exists>x. it = marshalled (RoleItem (roleToItem x)) \<and> Role_ID x = r) \<or>
         (\<exists>p. it = marshalled (PermissionItem (permissionToItem p)) \<and> Permission_ID p = r)"
  using assms by (auto simp: written_item_def)

lemma written_edge_of_user:
  assumes "written_item it" and "item_key it = Some (UserPrefix @ u, sk)" and "prefix RolePrefix sk"
  shows "\<exists>r t. it = edge_item u r t \<and> sk = RolePrefix @ r"
  using assms by (auto simp: written_item_def) blast+

lemma written_edge_of_role:
  assumes "written_item it" and "item_key it = Some (pk, RolePrefix @ r)" and "prefix UserPrefix pk"
  shows "\<exists>u t. it = edge_item u r t \<and> pk = UserPrefix @ u"
  using assms by (auto simp: written_item_def) blast+

lemma written_not_permission_prefix:
  assumes "written_item it"
  shows "item_key it \<noteq> Some (PermissionPrefix @ p, sk)"
  using assms by (auto simp: written_item_def)

lemma store_inv_empty: "store_inv []"
  by (simp add: store_inv_def)

lemma store_inv_written: "store_inv rows \<Longrightarrow> it \<in> set rows \<Longrightarrow> written_item it"
  unfolding store_inv_def by blast

lemma store_inv_edge:
  "store_inv rows \<Longrightarrow> edge_item u r t \<in> set rows \<Longrightarrow>
     has_key rows (UserPrefix @ u, MetadataPrefix @ u) \<and>
     has_key rows (RolePrefix @ r, MetadataPrefix @ r)"
  unfolding store_inv_def by blast

lemma store_inv_create:
  assumes "store_inv rows" and "written_item it" and "\<forall>u r t. it \<noteq> edge_item u r t"
  shows "store_inv (it # rows)"
  unfolding store_inv_def
proof (intro conjI allI impI ballI)
  fix x assume "x \<in> set (it # rows)"
  with assms(1,2) show "written_item x"
    by (auto dest: store_inv_written)
next
  fix u r t assume "edge_item u r t \<in> set (it # rows)"
  with assms(3) have "edge_item u r t \<in> set rows"
    by (metis set_ConsD)
  from store_inv_edge [OF assms(1) this]
  show "has_key (it # rows) (UserPrefix @ u, MetadataPrefix @ u)"
    and "has_key (it # rows) (RolePrefix @ r, MetadataPrefix @ r)"
    by simp_all
qed

lemma store_inv_assign:
  assumes "store_inv rows"
    and "has_key rows (UserPrefix @ u, MetadataPrefix @ u)"
    and "has_key rows (RolePrefix @ r, MetadataPrefix @ r)"
  shows "store_inv (edge_item u r t #
           filter (\<lambda>row. item_key row \<noteq> Some (UserPrefix @ u, RolePrefix @ r)) rows)"
    (is "store_inv (?e # ?F)")
  unfolding store_inv_def
proof (intro conjI allI impI ballI)
  fix it assume "it \<in> set (?e # ?F)"
  with assms(1) show "written_item it"
    by (auto dest: store_inv_written)
next
  fix u' r' t' assume m: "edge_item u' r' t' \<in> set (?e # ?F)"
  have "has_key rows (UserPrefix @ u', MetadataPrefix @ u') \<and>
        has_key rows (RolePrefix @ r', MetadataPrefix @ r')"
  proof (cases "edge_item u' r' t' = ?e")
    case True
    with assms(2,3) show ?thesis by (simp add: edge_item_eq)
  next
    case False
    with m have "edge_item u' r' t' \<in> set rows" by auto
    with assms(1) show ?thesis by (rule store_inv_edge)
  qed
  then show "has_key (?e # ?F) (UserPrefix @ u', MetadataPrefix @ u')"
    and "has_key (?e # ?F) (RolePrefix @ r', MetadataPrefix @ r')"
    by (auto intro!: has_key_put [where k = "(UserPrefix @ u, RolePrefix @ r)"] simp del: has_key_Cons)
qed

lemma store_inv_remove:
  assumes "store_inv rows"
  shows "store_inv (filter (\<lambda>row. item_key row \<noteq> Some (UserPrefix @ u, RolePrefix @ r)) rows)"
    (is "store_inv ?F")
  unfolding store_inv_def
proof (intro conjI allI impI ballI)
  fix it assume "it \<in> set ?F"
  with assms show "written_item it"
    by (auto dest: store_inv_written)
next
  fix u' r' t' assume m: "edge_item u' r' t' \<in> set ?F"
  then have "edge_item u' r' t' \<in> set rows" by auto
  with assms have "has_key rows (UserPrefix @ u', MetadataPrefix @ u') \<and>
        has_key rows (RolePrefix @ r', MetadataPrefix @ r')"
    by (rule store_inv_edge)
  then show "has_key ?F (UserPrefix @ u', MetadataPrefix @ u')"
    and "has_key ?F (RolePrefix @ r', MetadataPrefix @ r')"
    by (auto simp: has_key_iff)
qed

lemma reachable_store_inv: "reachable c \<Longrightarrow> store_inv (table c)"
proof (induction rule: reachable.induct)
  case (reachable_empty b g)
  then show ?case by (simp add: store_inv_empty)
next
  case (reachable_up c b)
  then show ?case by simp
next
  case (reachable_gsi1 c g)
  then show ?case by simp
next
  case (reachable_CreateUser c now displayName email)
  then show ?case
    using service_CreateUser_cases [of c now displayName email]
    by (auto intro!: store_inv_create)
next
  case (reachable_CreateRole c now displayName description)
  then show ?case
    using service_CreateRole_cases [of c now displayName description]
    by (auto intro!: store_inv_create)
next
  case (reachable_CreatePermission c now ident displayName description)
  then show ?case
    using service_CreatePermission_cases [of c now ident displayName description]
    by (auto intro!: store_inv_create)
next
  case (reachable_AssignRoleToUser c now userID roleID)
  then show ?case
    using service_AssignRoleToUser_cases [of c now userID roleID]
    by (auto intro!: store_inv_assign)
next
  case (reachable_RemoveRoleFromUser c userID roleID)
  then show ?case
    using service_RemoveRoleFromUser_cases [of c userID roleID]
    by (auto intro!: store_inv_remove)
next
  case (reachable_AssignPermissionToRole c roleID permissionID)
  then show ?case
    by (simp add: service_AssignPermissionToRole_snd)
qed

lemma GetUserByID_written:
  assumes "\<forall>it \<in> set (table c). written_item it" and "up c"
    and "has_key (table c) (UserPrefix @ u, MetadataPrefix @ u)"
  shows "\<exists>usr. repo_GetUserByID c u = Inr usr \<and> User_ID usr = u"
proof -
  from assms(3) obtain it where it: "lookup_key (table c) (UserPrefix @ u, MetadataPrefix @ u) = Some it"
    by (auto simp: has_key_def)
  then have "it \<in> set (table c)" "item_key it = Some (UserPrefix @ u, MetadataPrefix @ u)"
    by (auto dest: lookup_key_Some)
  with assms(1) obtain usr where "it = marshalled (UserItem (userToItem usr))" "User_ID usr = u"
    using written_user_metadata by blast
  with it assms(2) show ?thesis
    by (simp add: repo_GetUserByID_up)
qed

lemma GetRoleByID_written:
  assumes "\<forall>it \<in> set (table c). written_item it" and "up c"
    and "has_key (table c) (RolePrefix @ r, MetadataPrefix @ r)"
  shows "\<exists>role. repo_GetRoleByID c r = Inr role \<and> Role_ID role = r"
proof -
  from assms(3) obtain it where it: "lookup_key (table c) (RolePrefix @ r, MetadataPrefix @ r) = Some it"
    by (auto simp: has_key_def)
  then have "it \<in> set (table c)" "item_key it = Some (RolePrefix @ r, MetadataPrefix @ r)"
    by (auto dest: lookup_key_Some)
  with assms(1) consider
      x where "it = marshalled (RoleItem (roleToItem x))" "Role_ID x = r"
    | p where "it = marshalled (PermissionItem (permissionToItem p))" "Permission_ID p = r"
    using written_role_metadata by blast
  then show ?thesis
  proof cases
    case 1
    with it assms(2) show ?thesis
      by (simp add: repo_GetRoleByID_up)
  next
    case 2
    obtain ri where "UnmarshalMap_roleItem (marshalled (PermissionItem (permissionToItem p))) = Inr ri"
      "roleItem_ID ri = Permission_ID p"
      using unmarshal_permission_as_role by blast
    with 2 it assms(2) show ?thesis
      by (simp add: repo_GetRoleByID_up itemToRole_def)
  qed
qed

lemma GetRoleByID_absent:
  assumes "up c" and "\<not> has_key (table c) (RolePrefix @ r, MetadataPrefix @ r)"
  shows "repo_GetRoleByID c r = Inl ErrNotFound"
  using assms by (simp add: repo_GetRoleByID_up has_key_def)

lemma GetUserByID_inv:
  assumes "store_inv (table c)" and "up c"
    and "has_key (table c) (UserPrefix @ u, MetadataPrefix @ u)"
  shows "\<exists>usr. repo_GetUserByID c u = Inr usr \<and> User_ID usr = u"
  using assms store_inv_written GetUserByID_written by blast

lemma ListUsersInRole_items_written:
  assumes "\<forall>it \<in> set (table c). written_item it" and "up c"
    and "\<forall>it \<in> set items. it \<in> set (table c) \<and>
           key_condition_holds (KeyEqBeginsWith ''SK'' (RolePrefix @ R) ''PK'' UserPrefix) it"
  shows "\<exists>users. ListUsersInRole_items c items acc = Inr (acc @ users) \<and>
           set (map User_ID users) =
             {u. (\<exists>t. edge_item u R t \<in> set items) \<and>
                 has_key (table c) (UserPrefix @ u, MetadataPrefix @ u)}"
  using assms(3)
proof (induction items arbitrary: acc)
  case Nil
  then show ?case by simp
next
  case (Cons it items)
  then have mem: "it \<in> set (table c)"
    and kc: "key_condition_holds (KeyEqBeginsWith ''SK'' (RolePrefix @ R) ''PK'' UserPrefix) it"
    by simp_all
  from kc obtain pk where pk: "it ''SK'' = Some (S (RolePrefix @ R))" "it ''PK'' = Some (S pk)"
    "prefix UserPrefix pk"
    by (auto split: option.splits AttributeValue.splits)
  then have "pk \<noteq> []" by (auto simp: UserPrefix_def)
  with pk have key: "item_key it = Some (pk, RolePrefix @ R)"
    by (simp add: item_key_def RolePrefix_def)
  from assms(1) mem key pk(3)
  obtain u t where e: "it = edge_item u R t" "pk = UserPrefix @ u"
    using written_edge_of_role by blast
  from Cons have rest: "\<forall>it \<in> set items. it \<in> set (table c) \<and>
      key_condition_holds (KeyEqBeginsWith ''SK'' (RolePrefix @ R) ''PK'' UserPrefix) it"
    by simp
  let ?S = "\<lambda>xs. {u'. (\<exists>t'. edge_item u' R t' \<in> set xs) \<and>
                 has_key (table c) (UserPrefix @ u', MetadataPrefix @ u')}"
  show ?case
  proof (cases "has_key (table c) (UserPrefix @ u, MetadataPrefix @ u)")
    case True
    from GetUserByID_written [OF assms(1,2) True]
    obtain usr where usr: "repo_GetUserByID c u = Inr usr" "User_ID usr = u"
      by blast
    from Cons.IH [OF rest, of "acc @ [usr]"]
    obtain users where users:
      "ListUsersInRole_items c items (acc @ [usr]) = Inr (acc @ [usr] @ users)"
      "set (map User_ID users) = ?S items"
      by auto
    have "?S (it # items) = insert u (?S items)"
      using e(1) True by (auto simp: edge_item_eq)
    with users usr e show ?thesis
      by (intro exI [of _ "usr # users"]) simp
  next
    case False
    from GetUserByID_absent [OF assms(2) False]
    have none: "repo_GetUserByID c u = Inl ErrNotFound" .
    from Cons.IH [OF rest, of acc]
    obtain users where users: "ListUsersInRole_items c items acc = Inr (acc @ users)"
      "set (map User_ID users) = ?S items"
      by auto
    have "?S (it # items) = ?S items"
      using e(1) False by (auto simp: edge_item_eq)
    with users none e show ?thesis
      by (intro exI [of _ users]) simp
  qed
qed

lemma GetUserRoles_items_written:
  assumes "\<forall>it \<in> set (table c). written_item it" and "up c"
    and "\<forall>it \<in> set items. it \<in> set (table c) \<and>
           key_condition_holds (KeyEqBeginsWith ''PK'' (UserPrefix @ U) ''SK'' RolePrefix) it"
  shows "\<exists>roles. GetUserRoles_items c items acc = Inr (acc @ roles) \<and>
           set (map Role_ID roles) =
             {r. (\<exists>t. edge_item U r t \<in> set items) \<and>
                 has_key (table c) (RolePrefix @ r, MetadataPrefix @ r)}"
  using assms(3)
proof (induction items arbitrary: acc)
  case Nil
  then show ?case by simp
next
  case (Cons it items)
  then have mem: "it \<in> set (table c)"
    and kc: "key_condition_holds (KeyEqBeginsWith ''PK'' (UserPrefix @ U) ''SK'' RolePrefix) it"
    by simp_all
  from kc obtain sk where sk: "it ''PK'' = Some (S (UserPrefix @ U))" "it ''SK'' = Some (S sk)"
    "prefix RolePrefix sk"
    by (auto split: option.splits AttributeValue.splits)
  then have "sk \<noteq> []" by (auto simp: RolePrefix_def)
  with sk have key: "item_key it = Some (UserPrefix @ U, sk)"
    by (simp add: item_key_def UserPrefix_def)
  from assms(1) mem key sk(3)
  obtain r t where e: "it = edge_item U r t" "sk = RolePrefix @ r"
    using written_edge_of_user by blast
  from Cons have rest: "\<forall>it \<in> set items. it \<in> set (table c) \<and>
      key_condition_holds (KeyEqBeginsWith ''PK'' (UserPrefix @ U) ''SK'' RolePrefix) it"
    by simp
  let ?S = "\<lambda>xs. {r'. (\<exists>t'. edge_item U r' t' \<in> set xs) \<and>
                 has_key (table c) (RolePrefix @ r', MetadataPrefix @ r')}"
  show ?case
  proof (cases "has_key (table c) (RolePrefix @ r, MetadataPrefix @ r)")
    case True
    from GetRoleByID_written [OF assms(1,2) True]
    obtain role where role: "repo_GetRoleByID c r = Inr role" "Role_ID role = r"
      by blast
    from Cons.IH [OF rest, of "acc @ [role]"]
    obtain roles where roles:
      "GetUserRoles_items c items (acc @ [role]) = Inr (acc @ [role] @ roles)"
      "set (map Role_ID roles) = ?S items"
      by auto
    have "?S (it # items) = insert r (?S items)"
      using e(1) True by (auto simp: edge_item_eq)
    with roles role e show ?thesis
      by (intro exI [of _ "role # roles"]) simp
  next
    case False
    from GetRoleByID_absent [OF assms(2) False]
    have none: "repo_GetRoleByID c r = Inl ErrNotFound" .
    from Cons.IH [OF rest, of acc]
    obtain roles where roles: "GetUserRoles_items c items acc = Inr (acc @ roles)"
      "set (map Role_ID roles) = ?S items"
      by auto
    have "?S (it # items) = ?S items"
      using e(1) False by (auto simp: edge_item_eq)
    with roles none e show ?thesis
      by (intro exI [of _ roles]) simp
  qed
qed

lemma repo_ListUsersInRole_written:
  assumes "\<forall>it \<in> set (table c). written_item it" and "up c" and "gsi1 c"
  shows "\<exists>users. repo_ListUsersInRole c R = Inr users \<and>
           set (map User_ID users) =
             {u. (\<exists>t. edge_item u R t \<in> set (table c)) \<and>
                 has_key (table c) (UserPrefix @ u, MetadataPrefix @ u)}"
proof -
  let ?P = "key_condition_holds (KeyEqBeginsWith ''SK'' (RolePrefix @ R) ''PK'' UserPrefix)"
  have "\<forall>it \<in> set (filter ?P (table c)). it \<in> set (table c) \<and> ?P it"
    by simp
  from ListUsersInRole_items_written [OF assms(1,2) this, of "[]"]
  obtain users where users: "ListUsersInRole_items c (filter ?P (table c)) [] = Inr users"
    "set (map User_ID users) =
       {u. (\<exists>t. edge_item u R t \<in> set (filter ?P (table c))) \<and>
           has_key (table c) (UserPrefix @ u, MetadataPrefix @ u)}"
    by auto
  have "{u. (\<exists>t. edge_item u R t \<in> set (filter ?P (table c))) \<and>
           has_key (table c) (UserPrefix @ u, MetadataPrefix @ u)} =
        {u. (\<exists>t. edge_item u R t \<in> set (table c)) \<and>
           has_key (table c) (UserPrefix @ u, MetadataPrefix @ u)}"
    by (auto simp: UserPrefix_def)
  with users assms(2,3) show ?thesis
    by (simp add: repo_ListUsersInRole_def Query_GSI1_up del: key_condition_holds.simps)
qed

lemma repo_GetUserRoles_written:
  assumes "\<forall>it \<in> set (table c). written_item it" and "up c"
  shows "\<exists>roles. repo_GetUserRoles c U = Inr roles \<and>
           set (map Role_ID roles) =
             {r. (\<exists>t. edge_item U r t \<in> set (table c)) \<and>
                 has_key (table c) (RolePrefix @ r, MetadataPrefix @ r)}"
proof -
  let ?P = "key_condition_holds (KeyEqBeginsWith ''PK'' (UserPrefix @ U) ''SK'' RolePrefix)"
  have "\<forall>it \<in> set (filter ?P (table c)). it \<in> set (table c) \<and> ?P it"
    by simp
  from GetUserRoles_items_written [OF assms this, of "[]"]
  obtain roles where roles: "GetUserRoles_items c (filter ?P (table c)) [] = Inr roles"
    "set (map Role_ID roles) =
       {r. (\<exists>t. edge_item U r t \<in> set (filter ?P (table c))) \<and>
           has_key (table c) (RolePrefix @ r, MetadataPrefix @ r)}"
    by auto
  have "{r. (\<exists>t. edge_item U r t \<in> set (filter ?P (table c))) \<and>
           has_key (table c) (RolePrefix @ r, MetadataPrefix @ r)} =
        {r. (\<exists>t. edge_item U r t \<in> set (table c)) \<and>
           has_key (table c) (RolePrefix @ r, MetadataPrefix @ r)}"
    by (auto simp: RolePrefix_def)
  with roles assms(2) show ?thesis
    by (simp add: repo_GetUserRoles_def Query_table_up del: key_condition_holds.simps)
qed

lemma repo_ListUsersInRole_inv:
  assumes "store_inv (table c)" and "up c" and "gsi1 c"
  shows "\<exists>users. repo_ListUsersInRole c R = Inr users \<and>
           set (map User_ID users) = {u. \<exists>t. edge_item u R t \<in> set (table c)}"
proof -
  have w: "\<forall>it \<in> set (table c). written_item it"
    using assms(1) store_inv_written by blast
  have "{u. (\<exists>t. edge_item u R t \<in> set (table c)) \<and>
           has_key (table c) (UserPrefix @ u, MetadataPrefix @ u)} =
        {u. \<exists>t. edge_item u R t \<in> set (table c)}"
    using store_inv_edge [OF assms(1)] by blast
  with repo_ListUsersInRole_written [OF w assms(2,3), of R] show ?thesis
    by simp
qed

lemma repo_GetUserRoles_inv:
  assumes "store_inv (table c)" and "up c"
  shows "\<exists>roles. repo_GetUserRoles c U = Inr roles \<and>
           set (map Role_ID roles) = {r. \<exists>t. edge_item U r t \<in> set (table c)}"
proof -
  have w: "\<forall>it \<in> set (table c). written_item it"
    using assms(1) store_inv_written by blast
  have "{r. (\<exists>t. edge_item U r t \<in> set (table c)) \<and>
           has_key (table c) (RolePrefix @ r, MetadataPrefix @ r)} =
        {r. \<exists>t. edge_item U r t \<in> set (table c)}"
    using store_inv_edge [OF assms(1)] by blast
  with repo_GetUserRoles_written [OF w assms(2), of U] show ?thesis
    by simp
qed

subsection \<open>The conditional put behind the creators\<close>

text \<open>
  \<^verbatim>\<open>createItem\<close> in terms of the put it makes, and where a put that succeeds leaves the
  item.
\<close>

lemma createItem_PutItem:
  "createItem c x =
     (case PutItem c (marshalled x) (Some (attribute_not_exists ''PK'')) of
        (None, c') \<Rightarrow> (None, c')
      | (Some err, c') \<Rightarrow>
          (Some (if errors_Is err ConditionalCheckFailedException then ErrAlreadyExists
                 else Errorf ''failed to put item'' err), c'))"
  by (simp add: createItem_def MarshalMap_marshalled split: prod.splits option.splits)

lemma PutItem_stored:
  assumes "PutItem c it cond = (None, c')" and "item_key it = Some k"
  shows "lookup_key (table c') k = Some it"
  using assms
  by (auto simp: PutItem_def lookup_key_Cons split: if_splits option.splits)

subsection \<open>Tables with and without the index of the reverse lookup\<close>

text \<open>
  The stores of the run on a table with \<open>GSI1\<close>, and what \<^verbatim>\<open>ListUsersInRole\<close> returns on a
  table without it.
\<close>

lemma store5g_table:
  "store5g = \<lparr>table = [edge_item ''user-alice@example.com'' ''role-admin'' 4, marshalled (PermissionItem (permissionToItem document_create)), marshalled (RoleItem (roleToItem admin)), marshalled (UserItem (userToItem alice))], up = True, gsi1 = True\<rparr>"
  by (simp add: store5g_def store5_table)

lemma reachable_store5g: "reachable store5g"
  unfolding store5g_def using reachable_store5 by (rule reachable_gsi1)

lemma store2e_table:
  "store2e = \<lparr>table = [edge_item ''user-alice@example.com'' ''role-ghost'' 5, edge_item ''user-ghost'' ''role-admin'' 4, marshalled (RoleItem (roleToItem admin)), marshalled (UserItem (userToItem alice))], up = True, gsi1 = True\<rparr>"
  by (simp add: store2e_def store2g_def store2_table repo_AssignRoleToUser_up alice_def admin_def
      prefix_defs)

lemma repo_ListUsersInRole_no_GSI1:
  assumes "up c" and "\<not> gsi1 c"
  shows "repo_ListUsersInRole c R =
           Inl (Errorf ''failed to query users in role using GSI1'' ValidationException)"
  using assms by (simp add: repo_ListUsersInRole_def Query_GSI1_absent)

section \<open>Creating what exists\<close>

text \<open>
  Claim C4. On a store that answers, creating a user, a role or a permission whose
  metadata key is already in the table fails with \<open>ErrAlreadyExists\<close>, and the client comes
  back as it was, so the stored item keeps every field: \<^verbatim>\<open>createItem\<close> puts under the
  condition \<^verbatim>\<open>attribute_not_exists(PK)\<close>. The metadata key of a permission is the one that
  \<^verbatim>\<open>permissionToItem\<close> builds, under the role prefix.
\<close>

theorem create_existing_fails_unchanged:
  assumes "up c"
  shows "(has_key (table c) (UserPrefix @ User_ID u, MetadataPrefix @ User_ID u) \<longrightarrow>
            snd (repo_CreateUser c now u) = (Some ErrAlreadyExists, c)) \<and>
         (has_key (table c) (RolePrefix @ Role_ID r, MetadataPrefix @ Role_ID r) \<longrightarrow>
            snd (repo_CreateRole c now r) = (Some ErrAlreadyExists, c)) \<and>
         (has_key (table c) (RolePrefix @ Permission_ID p, MetadataPrefix @ Permission_ID p) \<longrightarrow>
            snd (repo_CreatePermission c now p) = (Some ErrAlreadyExists, c))"
  using assms
  by (simp add: repo_CreateUser_exists repo_CreateRole_exists repo_CreatePermission_exists)

theorem create_existing_fails_unchanged_witness:
  "up store3 \<and>
   has_key (table store3) (UserPrefix @ User_ID alice, MetadataPrefix @ User_ID alice) \<and>
   snd (repo_CreateUser store3 9 (alice\<lparr>User_DisplayName := ''Mallory''\<rparr>)) =
     (Some ErrAlreadyExists, store3) \<and>
   has_key (table store3) (RolePrefix @ Role_ID admin, MetadataPrefix @ Role_ID admin) \<and>
   snd (repo_CreateRole store3 9 (admin\<lparr>Role_Description := ''other''\<rparr>)) =
     (Some ErrAlreadyExists, store3) \<and>
   has_key (table store3)
     (RolePrefix @ Permission_ID document_create, MetadataPrefix @ Permission_ID document_create) \<and>
   snd (repo_CreatePermission store3 9 (document_create\<lparr>Permission_DisplayName := ''other''\<rparr>)) =
     (Some ErrAlreadyExists, store3)"
  using create_existing_fails_unchanged
          [of store3 "alice\<lparr>User_DisplayName := ''Mallory''\<rparr>" 9
              "admin\<lparr>Role_Description := ''other''\<rparr>"
              "document_create\<lparr>Permission_DisplayName := ''other''\<rparr>"]
  by (simp add: store3_table prefix_defs)

section \<open>A user without roles\<close>

text \<open>
  Claim C2. On a store that answers, a user with no edge record to a role has an empty
  role list, and \<^verbatim>\<open>UserHasPermission\<close> returns \<^verbatim>\<open>(false, nil)\<close> for every permission: the
  branch \<^verbatim>\<open>len(roles) == 0\<close>. Nothing depends on the user's metadata item, so a user that
  was never created is covered; the witness has one user of each kind.
\<close>

theorem no_roles_no_permission:
  assumes "up c" and "assigned_roles c u = []"
  shows "repo_GetUserRoles c u = Inr [] \<and> service_UserHasPermission c u p = Inr False"
proof -
  have "repo_GetUserRoles c u = Inr []"
    using assms
    by (simp add: repo_GetUserRoles_def Query_table_up assigned_roles_Nil
        del: key_condition_holds.simps)
  then show ?thesis
    by (simp add: service_UserHasPermission_def)
qed

theorem no_roles_no_permission_witness:
  "up store3 \<and> assigned_roles store3 ''user-alice@example.com'' = [] \<and>
   repo_GetUserByID store3 ''user-alice@example.com'' = Inr alice \<and>
   repo_GetUserRoles store3 ''user-alice@example.com'' = Inr [] \<and>
   service_UserHasPermission store3 ''user-alice@example.com'' ''document:create'' = Inr False \<and>
   assigned_roles store3 ''user-nobody'' = [] \<and>
   repo_GetUserByID store3 ''user-nobody'' = Inl ErrNotFound \<and>
   repo_GetUserRoles store3 ''user-nobody'' = Inr [] \<and>
   service_UserHasPermission store3 ''user-nobody'' ''document:create'' = Inr False"
proof -
  have up: "up store3"
    by (simp add: store3_table)
  have a: "repo_GetUserByID store3 ''user-alice@example.com'' = Inr alice"
    using up by (simp add: repo_GetUserByID_up)
       (simp add: store3_table lookup_key_Cons prefix_defs alice_def)
  have b: "repo_GetUserByID store3 ''user-nobody'' = Inl ErrNotFound"
    using up by (simp add: repo_GetUserByID_up)
       (simp add: store3_table lookup_key_Cons prefix_defs alice_def)
  show ?thesis
    using no_roles_no_permission [of store3 "''user-alice@example.com''" "''document:create''"]
          no_roles_no_permission [of store3 "''user-nobody''" "''document:create''"]
          up a b
    by (simp add: assigned_roles_store3)
qed

section \<open>The user id is the email\<close>

text \<open>
  Claim C10. The id of a created user is \<^verbatim>\<open>"user-" + email\<close>, whatever the display name.
  So after a \<^verbatim>\<open>CreateUser\<close> that succeeded, a second one with the same email, any display
  name and any clock builds the same key and fails with an error that wraps
  \<open>ErrAlreadyExists\<close>, leaving the store as it was.
\<close>

theorem CreateUser_same_email_AlreadyExists:
  assumes "service_CreateUser c t1 n1 email = (Inr u1, c1)"
  shows "User_ID u1 = ''user-'' @ email \<and>
         service_CreateUser c1 t2 n2 email =
           (Inl (Errorf ''service.CreateUser'' ErrAlreadyExists), c1) \<and>
         errors_Is (Errorf ''service.CreateUser'' ErrAlreadyExists) ErrAlreadyExists"
proof -
  from assms have c: "up c"
    "\<not> has_key (table c) (UserPrefix @ ''user-'' @ email, MetadataPrefix @ ''user-'' @ email)"
    using service_CreateUser_Inr by blast+
  with assms have u1: "User_ID u1 = ''user-'' @ email"
    and c1: "up c1" "has_key (table c1) (UserPrefix @ ''user-'' @ email, MetadataPrefix @ ''user-'' @ email)"
    by (auto simp: service_CreateUser_new)
  from c1 have "service_CreateUser c1 t2 n2 email =
      (Inl (Errorf ''service.CreateUser'' ErrAlreadyExists), c1)"
    by (simp add: service_CreateUser_def Let_def repo_CreateUser_exists)
  with u1 show ?thesis by simp
qed

theorem CreateUser_same_email_AlreadyExists_witness:
  "service_CreateUser store0 1 ''Alice'' ''alice@example.com'' = (Inr alice, store1) \<and>
   User_ID alice = ''user-'' @ ''alice@example.com'' \<and>
   service_CreateUser store1 7 ''Bob'' ''alice@example.com'' =
     (Inl (Errorf ''service.CreateUser'' ErrAlreadyExists), store1) \<and>
   errors_Is (Errorf ''service.CreateUser'' ErrAlreadyExists) ErrAlreadyExists"
  using CreateUser_same_email_AlreadyExists [OF store1_eq, of 7 "''Bob''"] store1_eq
  by simp

section \<open>The scenario of the specification\<close>

text \<open>
  Claim C1. The run of the scenario: user, role and permission are created;
  \<^verbatim>\<open>AssignPermissionToRole\<close> of the service fails, since it looks the permission up under
  the permission prefix; the role is assigned to the user and \<^verbatim>\<open>GetUserRoles\<close> returns it;
  \<^verbatim>\<open>GetRolePermissions\<close> of the repository returns no permission, and so
  \<^verbatim>\<open>UserHasPermission\<close> answers \<^verbatim>\<open>false\<close> where the claim expects \<^verbatim>\<open>true\<close>. After the role
  is removed from the user the answer is \<^verbatim>\<open>false\<close>, as the claim says.
\<close>

theorem scenario_permission_not_granted:
  "service_CreateUser store0 1 ''Alice'' ''alice@example.com'' = (Inr alice, store1) \<and>
   service_CreateRole store1 2 ''admin'' ''Administrator'' = (Inr admin, store2) \<and>
   service_CreatePermission store2 3 ''document:create'' ''Create Document'' [] =
     (Inr document_create, store3) \<and>
   service_AssignPermissionToRole store3 ''role-admin'' ''document:create'' =
     (Some (Errorf ''service.AssignPermissionToRole: permission not found'' ErrNotFound), store4) \<and>
   service_AssignRoleToUser store4 4 ''user-alice@example.com'' ''role-admin'' = (None, store5) \<and>
   service_GetUserRoles store5 ''user-alice@example.com'' = Inr [admin] \<and>
   repo_GetRolePermissions store5 ''role-admin'' = Inr [] \<and>
   service_UserHasPermission store5 ''user-alice@example.com'' ''document:create'' = Inr False \<and>
   service_RemoveRoleFromUser store5 ''user-alice@example.com'' ''role-admin'' = (None, store6) \<and>
   service_UserHasPermission store6 ''user-alice@example.com'' ''document:create'' = Inr False"
proof -
  have up: "up store5"
    by (simp add: store5_table)
  have up6: "up store6"
    by (simp add: store6_table store3_table)
  have g: "repo_GetRoleByID store5 ''role-admin'' = Inr admin"
    using up by (simp add: repo_GetRoleByID_up)
      (simp add: store5_table lookup_key_Cons prefix_defs admin_def alice_def document_create_def)
  have q: "filter (key_condition_holds
              (KeyEqBeginsWith ''PK'' (UserPrefix @ ''user-alice@example.com'') ''SK'' RolePrefix))
            (table store5) = [edge_item ''user-alice@example.com'' ''role-admin'' 4]"
    by (simp add: store5_table prefix_defs alice_def)
  have roles: "service_GetUserRoles store5 ''user-alice@example.com'' = Inr [admin]"
    using up g
    by (simp add: service_GetUserRoles_def repo_GetUserRoles_def Query_table_up q
          del: key_condition_holds.simps)
  show ?thesis
    using store1_eq store2_eq store3_eq store4_eq store4_table store5_eq store6_eq roles up up6
    by (simp add: service_UserHasPermission_up repo_GetRolePermissions_def)
qed

section \<open>Creating and reading a permission\<close>

text \<open>
  Claim C3. \<^verbatim>\<open>CreatePermission\<close> succeeds and stores the item under the partition key
  \<^verbatim>\<open>"ROLE#" + id\<close>; \<^verbatim>\<open>GetPermissionByID\<close> of the same id reads under \<^verbatim>\<open>"PERMISSION#" + id\<close>
  and returns \<open>ErrNotFound\<close>.
\<close>

theorem created_permission_not_found:
  "service_CreatePermission store2 3 ''document:create'' ''Create Document'' [] =
     (Inr document_create, store3) \<and>
   PK (permissionToItem document_create) = ''ROLE#document:create'' \<and>
   repo_GetPermissionByID store3 ''document:create'' = Inl ErrNotFound"
proof -
  have "up store3"
    by (simp add: store3_table)
  then have "repo_GetPermissionByID store3 ''document:create'' = Inl ErrNotFound"
    by (simp add: repo_GetPermissionByID_up)
       (simp add: store3_table lookup_key_Cons prefix_defs document_create_def admin_def alice_def)
  then show ?thesis
    using store3_eq by (simp add: permissionToItem_def document_create_def RolePrefix_def)
qed

text \<open>
  The same for every id and every state that the service can produce: no writer stores an
  item under the permission prefix, so \<^verbatim>\<open>GetPermissionByID\<close> finds nothing.
\<close>

lemma GetPermissionByID_reachable:
  assumes "reachable c" and "up c"
  shows "repo_GetPermissionByID c p = Inl ErrNotFound"
proof -
  have "lookup_key (table c) (PermissionPrefix @ p, MetadataPrefix @ p) = None"
    using reachable_store_inv [OF assms(1)] store_inv_written written_not_permission_prefix
    by (auto simp: lookup_key_None)
  with assms(2) show ?thesis
    by (simp add: repo_GetPermissionByID_up)
qed

section \<open>Listing roles and permissions\<close>

text \<open>
  Claim C6. After a user, a role and a permission have been created, the role can be read
  back by its id and \<^verbatim>\<open>ListAllUsers\<close> returns the user, but \<^verbatim>\<open>GetAllRoles\<close> and
  \<^verbatim>\<open>GetAllPermissions\<close> return the empty list.
\<close>

theorem list_all_roles_permissions_empty:
  "service_CreateUser store0 1 ''Alice'' ''alice@example.com'' = (Inr alice, store1) \<and>
   service_CreateRole store1 2 ''admin'' ''Administrator'' = (Inr admin, store2) \<and>
   service_CreatePermission store2 3 ''document:create'' ''Create Document'' [] =
     (Inr document_create, store3) \<and>
   repo_GetRoleByID store3 ''role-admin'' = Inr admin \<and>
   repo_ListAllUsers store3 = Inr [alice] \<and>
   service_GetAllRoles store3 = Inr [] \<and>
   service_GetAllPermissions store3 = Inr []"
proof -
  have up: "up store3"
    by (simp add: store3_table)
  then have r: "repo_GetRoleByID store3 ''role-admin'' = Inr admin"
    by (simp add: repo_GetRoleByID_up)
       (simp add: store3_table lookup_key_Cons prefix_defs document_create_def admin_def alice_def)
  have g: "repo_GetUserByID store3 ''user-alice@example.com'' = Inr alice"
    using up by (simp add: repo_GetUserByID_up)
      (simp add: store3_table lookup_key_Cons alice_def admin_def document_create_def)
  have n1: "repo_GetUserByID store3 ''role-admin'' = Inl ErrNotFound"
    using up by (simp add: repo_GetUserByID_up)
      (simp add: store3_table lookup_key_Cons alice_def admin_def document_create_def prefix_defs)
  have n2: "repo_GetUserByID store3 ''document:create'' = Inl ErrNotFound"
    using up by (simp add: repo_GetUserByID_up)
      (simp add: store3_table lookup_key_Cons alice_def admin_def document_create_def prefix_defs)
  have tbl: "table store3 = [marshalled (PermissionItem (permissionToItem document_create)),
      marshalled (RoleItem (roleToItem admin)), marshalled (UserItem (userToItem alice))]"
    by (simp add: store3_table)
  have keys: "\<forall>it \<in> set (table store3). item_key it \<noteq> None"
    by (simp add: tbl)
  have l: "concat (map (listed_user store3) (table store3)) = [alice]"
    using g n1 n2
    by (simp add: tbl listed_user_def alice_def admin_def document_create_def)
  have "repo_ListAllUsers store3 = Inr [alice]"
    by (simp add: repo_ListAllUsers_eq [OF up keys] l)
  with r show ?thesis
    using store1_eq store2_eq store3_eq
    by (simp add: service_GetAllRoles_def service_GetAllPermissions_def
        repo_ListAllRoles_def repo_ListAllPermissions_def)
qed

section \<open>Identifiers with the separator\<close>

text \<open>
  Claim C7, as stated, fails: an email that contains \<open>#\<close> is accepted, the user is
  returned and its item is in the table under the concatenated key.
\<close>

theorem CreateUser_separator_accepted:
  "CHR ''#'' \<in> set ''a#b'' \<and>
   fst (service_CreateUser store0 1 ''Eve'' ''a#b'') =
     Inr \<lparr>User_ID = ''user-a#b'', User_DisplayName = ''Eve'', User_Email = ''a#b'',
           User_CreatedAt = 1, User_UpdatedAt = 1\<rparr> \<and>
   has_key (table (snd (service_CreateUser store0 1 ''Eve'' ''a#b'')))
     (''USER#user-a#b'', ''METADATA#user-a#b'')"
  by (simp add: store0_def service_CreateUser_new prefix_defs)

text \<open>
  Claim C7, amended, for an email that contains \<open>#\<close>. Nothing on the way from
  \<^verbatim>\<open>CreateUser\<close> to the store looks at the characters of the email: the keys of the item are
  the prefixes followed by \<^verbatim>\<open>user-\<close> and the email as it is, and the item goes to the
  conditional put. That put alone decides what \<^verbatim>\<open>CreateUser\<close> returns. When it succeeds,
  the user is returned and the item is in the table under the concatenated key. When it
  fails, the failure is the put's: \<^verbatim>\<open>ErrAlreadyExists\<close> for a key that is taken, the error of
  the store in \<^verbatim>\<open>failed to put item\<close> otherwise. No failure comes from the encoding of the
  key.
\<close>

theorem CreateUser_separator_not_checked:
  assumes "CHR ''#'' \<in> set email"
  shows "let user = \<lparr>User_ID = ''user-'' @ email, User_DisplayName = displayName,
                      User_Email = email, User_CreatedAt = now, User_UpdatedAt = now\<rparr>;
             item = marshalled (UserItem (userToItem user))
         in item ''PK'' = Some (S (''USER#user-'' @ email)) \<and>
            item ''SK'' = Some (S (''METADATA#user-'' @ email)) \<and>
            (case PutItem c item (Some (attribute_not_exists ''PK'')) of
               (None, c') \<Rightarrow>
                 service_CreateUser c now displayName email = (Inr user, c') \<and>
                 lookup_key (table c') (''USER#user-'' @ email, ''METADATA#user-'' @ email) =
                   Some item
             | (Some err, c') \<Rightarrow>
                 service_CreateUser c now displayName email =
                   (Inl (Errorf ''service.CreateUser''
                          (if errors_Is err ConditionalCheckFailedException then ErrAlreadyExists
                           else Errorf ''failed to put item'' err)), c'))"
proof -
  define user where "user = \<lparr>User_ID = ''user-'' @ email, User_DisplayName = displayName,
                      User_Email = email, User_CreatedAt = now, User_UpdatedAt = now\<rparr>"
  define item where "item = marshalled (UserItem (userToItem user))"
  have k: "item ''PK'' = Some (S (''USER#user-'' @ email))"
    "item ''SK'' = Some (S (''METADATA#user-'' @ email))"
    "item_key item = Some (''USER#user-'' @ email, ''METADATA#user-'' @ email)"
    by (simp_all add: item_def user_def prefix_defs)
  have svc: "service_CreateUser c now displayName email =
      (case createItem c (UserItem (userToItem user)) of
         (None, c') \<Rightarrow> (Inr user, c')
       | (Some err, c') \<Rightarrow> (Inl (Errorf ''service.CreateUser'' err), c'))"
    by (simp add: service_CreateUser_def repo_CreateUser_def Let_def user_def
        split: prod.splits option.splits)
  have "case PutItem c item (Some (attribute_not_exists ''PK'')) of
          (None, c') \<Rightarrow>
            service_CreateUser c now displayName email = (Inr user, c') \<and>
            lookup_key (table c') (''USER#user-'' @ email, ''METADATA#user-'' @ email) = Some item
        | (Some err, c') \<Rightarrow>
            service_CreateUser c now displayName email =
              (Inl (Errorf ''service.CreateUser''
                     (if errors_Is err ConditionalCheckFailedException then ErrAlreadyExists
                      else Errorf ''failed to put item'' err)), c')"
    using PutItem_stored [of c item "Some (attribute_not_exists ''PK'')" _ 
            "(''USER#user-'' @ email, ''METADATA#user-'' @ email)"] k(3)
    by (auto simp: svc createItem_PutItem item_def [symmetric] split: prod.splits option.splits)
  with k(1,2) show ?thesis
    unfolding Let_def user_def [symmetric] item_def [symmetric] by simp
qed

theorem CreateUser_separator_not_checked_witness:
  "CHR ''#'' \<in> set ''x#y@example.com'' \<and>
   (\<exists>c'. PutItem store0 (marshalled (UserItem (userToItem eve)))
            (Some (attribute_not_exists ''PK'')) = (None, c') \<and>
      service_CreateUser store0 1 ''Eve'' ''x#y@example.com'' = (Inr eve, c') \<and>
      lookup_key (table c') (''USER#user-x#y@example.com'', ''METADATA#user-x#y@example.com'') =
        Some (marshalled (UserItem (userToItem eve))) \<and>
      PutItem c' (marshalled (UserItem (userToItem (eve\<lparr>User_CreatedAt := 2, User_UpdatedAt := 2\<rparr>))))
            (Some (attribute_not_exists ''PK'')) = (Some ConditionalCheckFailedException, c') \<and>
      service_CreateUser c' 2 ''Eve'' ''x#y@example.com'' =
        (Inl (Errorf ''service.CreateUser'' ErrAlreadyExists), c'))"
proof -
  define c1 where "c1 = store0\<lparr>table := [marshalled (UserItem (userToItem eve))]\<rparr>"
  have h: "CHR ''#'' \<in> set ''x#y@example.com''"
    by simp
  have p1: "PutItem store0 (marshalled (UserItem (userToItem eve)))
            (Some (attribute_not_exists ''PK'')) = (None, c1)"
    by (simp add: PutItem_def store0_def c1_def)
  have p2: "PutItem c1 (marshalled (UserItem (userToItem (eve\<lparr>User_CreatedAt := 2, User_UpdatedAt := 2\<rparr>))))
            (Some (attribute_not_exists ''PK'')) = (Some ConditionalCheckFailedException, c1)"
    by (simp add: PutItem_def store0_def c1_def lookup_key_Cons eve_def)
  have e1: "\<lparr>User_ID = ''user-'' @ ''x#y@example.com'', User_DisplayName = ''Eve'',
             User_Email = ''x#y@example.com'', User_CreatedAt = 1, User_UpdatedAt = 1\<rparr> = eve"
    by (simp add: eve_def)
  have e2: "\<lparr>User_ID = ''user-'' @ ''x#y@example.com'', User_DisplayName = ''Eve'',
             User_Email = ''x#y@example.com'', User_CreatedAt = 2, User_UpdatedAt = 2\<rparr> =
           eve\<lparr>User_CreatedAt := 2, User_UpdatedAt := 2\<rparr>"
    by (simp add: eve_def)
  from CreateUser_separator_not_checked [OF h, of "''Eve''" 1 store0]
  have a: "service_CreateUser store0 1 ''Eve'' ''x#y@example.com'' = (Inr eve, c1) \<and>
      lookup_key (table c1) (''USER#user-x#y@example.com'', ''METADATA#user-x#y@example.com'') =
        Some (marshalled (UserItem (userToItem eve)))"
    unfolding Let_def e1 p1 by simp
  from CreateUser_separator_not_checked [OF h, of "''Eve''" 2 c1]
  have b: "service_CreateUser c1 2 ''Eve'' ''x#y@example.com'' =
        (Inl (Errorf ''service.CreateUser'' ErrAlreadyExists), c1)"
    unfolding Let_def e2 p2 by simp
  from h p1 p2 a b show ?thesis
    by blast
qed

section \<open>Assigning a role twice\<close>

text \<open>
  Claim C5. On a store that answers, \<^verbatim>\<open>AssignRoleToUser\<close> of the repository succeeds twice for
  the same user and role; afterwards the table holds exactly one item under the key of the
  pair, the one of the second call (its \<open>AssignedAt\<close> is the later clock), and
  \<^verbatim>\<open>GetUserRoles\<close> returns the same roles, so as many, after the second call as after the
  first.
\<close>

theorem AssignRoleToUser_twice_one_edge:
  assumes "up c"
  shows "\<exists>c1 c2 roles1 roles2.
           repo_AssignRoleToUser c t1 u r = (None, c1) \<and>
           repo_AssignRoleToUser c1 t2 u r = (None, c2) \<and>
           length (filter (\<lambda>it. item_key it = Some (UserPrefix @ u, RolePrefix @ r)) (table c2)) = 1 \<and>
           lookup_key (table c2) (UserPrefix @ u, RolePrefix @ r) = Some (edge_item u r t2) \<and>
           repo_GetUserRoles c1 u = Inr roles1 \<and>
           repo_GetUserRoles c2 u = Inr roles2 \<and>
           length roles2 = length roles1 \<and> roles2 = roles1"
proof -
  let ?k = "(UserPrefix @ u, RolePrefix @ r)"
  define F where "F = filter (\<lambda>row. item_key row \<noteq> Some ?k) (table c)"
  define c1 where "c1 = c\<lparr>table := edge_item u r t1 # F\<rparr>"
  define c2 where "c2 = c\<lparr>table := edge_item u r t2 # F\<rparr>"
  have up: "up c1" "up c2"
    using assms by (simp_all add: c1_def c2_def)
  have a1: "repo_AssignRoleToUser c t1 u r = (None, c1)"
    using assms by (simp add: repo_AssignRoleToUser_up c1_def F_def)
  have a2: "repo_AssignRoleToUser c1 t2 u r = (None, c2)"
    using up(1) by (simp add: repo_AssignRoleToUser_up) (simp add: c1_def c2_def F_def)
  have one: "length (filter (\<lambda>it. item_key it = Some ?k) (table c2)) = 1"
    by (simp add: c2_def F_def filter_empty_conv)
  have last: "lookup_key (table c2) ?k = Some (edge_item u r t2)"
    by (simp add: c2_def lookup_key_Cons)
  have get: "repo_GetRoleByID c1 x = repo_GetRoleByID c2 x" for x
    using up
    by (simp add: repo_GetRoleByID_up) (simp add: c1_def c2_def lookup_key_Cons)
  have q: "map UnmarshalMap_baseItem
             (filter (key_condition_holds (KeyEqBeginsWith ''PK'' (UserPrefix @ u) ''SK'' RolePrefix))
                (table c1)) =
           map UnmarshalMap_baseItem
             (filter (key_condition_holds (KeyEqBeginsWith ''PK'' (UserPrefix @ u) ''SK'' RolePrefix))
                (table c2))"
    by (simp add: c1_def c2_def)
  have same: "repo_GetUserRoles c1 u = repo_GetUserRoles c2 u"
    using up
    by (simp add: repo_GetUserRoles_def Query_table_up GetUserRoles_items_cong [OF get q]
        del: key_condition_holds.simps)
  obtain roles where r1: "repo_GetUserRoles c1 u = Inr roles"
    using repo_GetUserRoles_total [OF up(1)] by blast
  with same have r2: "repo_GetUserRoles c2 u = Inr roles"
    by simp
  from a1 a2 one last r1 r2 show ?thesis
    by blast
qed

theorem AssignRoleToUser_twice_one_edge_witness:
  "up store4 \<and>
   repo_AssignRoleToUser store4 4 ''user-alice@example.com'' ''role-admin'' = (None, store5) \<and>
   repo_GetUserRoles store5 ''user-alice@example.com'' = Inr [admin] \<and>
   (\<exists>c2. repo_AssignRoleToUser store5 5 ''user-alice@example.com'' ''role-admin'' = (None, c2) \<and>
      length (filter (\<lambda>it. item_key it =
                Some (UserPrefix @ ''user-alice@example.com'', RolePrefix @ ''role-admin''))
              (table c2)) = 1 \<and>
      lookup_key (table c2) (UserPrefix @ ''user-alice@example.com'', RolePrefix @ ''role-admin'') =
        Some (edge_item ''user-alice@example.com'' ''role-admin'' 5) \<and>
      repo_GetUserRoles c2 ''user-alice@example.com'' = Inr [admin])"
proof -
  have up: "up store4"
    by (simp add: store4_table store3_table)
  have up5: "up store5"
    by (simp add: store5_table)
  have a: "repo_AssignRoleToUser store4 4 ''user-alice@example.com'' ''role-admin'' = (None, store5)"
    using up by (simp add: repo_AssignRoleToUser_up)
      (simp add: store5_table store4_table store3_table alice_def admin_def document_create_def)
  have g: "repo_GetRoleByID store5 ''role-admin'' = Inr admin"
    using up5 by (simp add: repo_GetRoleByID_up)
      (simp add: store5_table lookup_key_Cons admin_def alice_def document_create_def)
  have q: "filter (key_condition_holds
              (KeyEqBeginsWith ''PK'' (UserPrefix @ ''user-alice@example.com'') ''SK'' RolePrefix))
            (table store5) = [edge_item ''user-alice@example.com'' ''role-admin'' 4]"
    by (simp add: store5_table alice_def admin_def document_create_def)
  have roles: "repo_GetUserRoles store5 ''user-alice@example.com'' = Inr [admin]"
    using up5 g
    by (simp add: repo_GetUserRoles_def Query_table_up q del: key_condition_holds.simps)
  from AssignRoleToUser_twice_one_edge
         [OF up, of 4 "''user-alice@example.com''" "''role-admin''" 5] a roles
  show ?thesis
    using up by auto
qed

section \<open>Users of a role and roles of a user\<close>

text \<open>
  Claim C8, as stated, fails. \<^verbatim>\<open>AssignRoleToUser\<close> of the repository does not look at the
  two ends of the edge it writes (\<^verbatim>\<open>// Usually done in service layer\<close>), and both lookups
  fetch the metadata of the other end and skip an edge whose other end is missing. After an
  edge from a user that was never created, \<^verbatim>\<open>GetUserRoles\<close> of that user holds the role and
  \<^verbatim>\<open>ListUsersInRole\<close> of the role is without the user. After an edge to a role that was
  never created, \<^verbatim>\<open>ListUsersInRole\<close> of that role returns the user and \<^verbatim>\<open>GetUserRoles\<close> of
  the user is without the role. And on a table without the index \<open>GSI1\<close>, as the README
  creates it, \<^verbatim>\<open>ListUsersInRole\<close> fails, also for a role that \<^verbatim>\<open>GetUserRoles\<close> returns in a
  state that the service has produced.
\<close>

theorem repository_edges_without_ends:
  "fst (repo_AssignRoleToUser store2g 4 ''user-ghost'' ''role-admin'') = None \<and>
   fst (repo_AssignRoleToUser (snd (repo_AssignRoleToUser store2g 4 ''user-ghost'' ''role-admin''))
          5 ''user-alice@example.com'' ''role-ghost'') = None \<and>
   up store2e \<and> gsi1 store2e \<and>
   repo_GetUserRoles store2e ''user-ghost'' = Inr [admin] \<and>
   repo_ListUsersInRole store2e ''role-admin'' = Inr [] \<and>
   repo_ListUsersInRole store2e ''role-ghost'' = Inr [alice] \<and>
   repo_GetUserRoles store2e ''user-alice@example.com'' = Inr [] \<and>
   reachable store5 \<and> up store5 \<and>
   repo_GetUserRoles store5 ''user-alice@example.com'' = Inr [admin] \<and>
   repo_ListUsersInRole store5 ''role-admin'' =
     Inl (Errorf ''failed to query users in role using GSI1'' ValidationException)"
proof -
  have up2: "up store2g"
    by (simp add: store2g_def store2_table)
  have a1: "repo_AssignRoleToUser store2g 4 ''user-ghost'' ''role-admin'' =
      (None, store2g\<lparr>table := edge_item ''user-ghost'' ''role-admin'' 4 #
         filter (\<lambda>row. item_key row \<noteq> Some (UserPrefix @ ''user-ghost'', RolePrefix @ ''role-admin''))
           (table store2g)\<rparr>)"
    using up2 by (rule repo_AssignRoleToUser_up)
  have a2: "fst (repo_AssignRoleToUser
        (snd (repo_AssignRoleToUser store2g 4 ''user-ghost'' ''role-admin''))
        5 ''user-alice@example.com'' ''role-ghost'') = None"
    using up2 by (simp add: a1 repo_AssignRoleToUser_up)
  have tbl: "table store2e = [edge_item ''user-alice@example.com'' ''role-ghost'' 5,
      edge_item ''user-ghost'' ''role-admin'' 4,
      marshalled (RoleItem (roleToItem admin)), marshalled (UserItem (userToItem alice))]"
    by (simp add: store2e_table)
  have up: "up store2e" and g: "gsi1 store2e"
    by (simp_all add: store2e_table)
  have gu1: "repo_GetUserByID store2e ''user-ghost'' = Inl ErrNotFound"
    using up by (simp add: repo_GetUserByID_up)
      (simp add: tbl lookup_key_Cons alice_def admin_def prefix_defs)
  have gu2: "repo_GetUserByID store2e ''user-alice@example.com'' = Inr alice"
    using up by (simp add: repo_GetUserByID_up)
      (simp add: tbl lookup_key_Cons alice_def admin_def prefix_defs)
  have gr1: "repo_GetRoleByID store2e ''role-admin'' = Inr admin"
    using up by (simp add: repo_GetRoleByID_up)
      (simp add: tbl lookup_key_Cons alice_def admin_def prefix_defs)
  have gr2: "repo_GetRoleByID store2e ''role-ghost'' = Inl ErrNotFound"
    using up by (simp add: repo_GetRoleByID_up)
      (simp add: tbl lookup_key_Cons alice_def admin_def prefix_defs)
  have q1: "filter (key_condition_holds
              (KeyEqBeginsWith ''SK'' (RolePrefix @ ''role-admin'') ''PK'' UserPrefix))
            (table store2e) = [edge_item ''user-ghost'' ''role-admin'' 4]"
    by (simp add: tbl alice_def admin_def prefix_defs edge_item_def)
  have q2: "filter (key_condition_holds
              (KeyEqBeginsWith ''PK'' (UserPrefix @ ''user-ghost'') ''SK'' RolePrefix))
            (table store2e) = [edge_item ''user-ghost'' ''role-admin'' 4]"
    by (simp add: tbl alice_def admin_def prefix_defs edge_item_def)
  have q3: "filter (key_condition_holds
              (KeyEqBeginsWith ''SK'' (RolePrefix @ ''role-ghost'') ''PK'' UserPrefix))
            (table store2e) = [edge_item ''user-alice@example.com'' ''role-ghost'' 5]"
    by (simp add: tbl alice_def admin_def prefix_defs edge_item_def)
  have q4: "filter (key_condition_holds
              (KeyEqBeginsWith ''PK'' (UserPrefix @ ''user-alice@example.com'') ''SK'' RolePrefix))
            (table store2e) = [edge_item ''user-alice@example.com'' ''role-ghost'' 5]"
    by (simp add: tbl alice_def admin_def prefix_defs edge_item_def)
  have l1: "repo_ListUsersInRole store2e ''role-admin'' = Inr []"
    using up g gu1
    by (simp add: repo_ListUsersInRole_def Query_GSI1_up q1 del: key_condition_holds.simps)
  have g1: "repo_GetUserRoles store2e ''user-ghost'' = Inr [admin]"
    using up gr1
    by (simp add: repo_GetUserRoles_def Query_table_up q2 del: key_condition_holds.simps)
  have l2: "repo_ListUsersInRole store2e ''role-ghost'' = Inr [alice]"
    using up g gu2
    by (simp add: repo_ListUsersInRole_def Query_GSI1_up q3 del: key_condition_holds.simps)
  have g2: "repo_GetUserRoles store2e ''user-alice@example.com'' = Inr []"
    using up gr2
    by (simp add: repo_GetUserRoles_def Query_table_up q4 del: key_condition_holds.simps)
  have up5: "up store5" and ng5: "\<not> gsi1 store5"
    by (simp_all add: store5_table)
  have gr5: "repo_GetRoleByID store5 ''role-admin'' = Inr admin"
    using up5 by (simp add: repo_GetRoleByID_up)
      (simp add: store5_table lookup_key_Cons alice_def admin_def document_create_def)
  have q5: "filter (key_condition_holds
              (KeyEqBeginsWith ''PK'' (UserPrefix @ ''user-alice@example.com'') ''SK'' RolePrefix))
            (table store5) = [edge_item ''user-alice@example.com'' ''role-admin'' 4]"
    by (simp add: store5_table alice_def admin_def document_create_def)
  have g5: "repo_GetUserRoles store5 ''user-alice@example.com'' = Inr [admin]"
    using up5 gr5
    by (simp add: repo_GetUserRoles_def Query_table_up q5 del: key_condition_holds.simps)
  have l5: "repo_ListUsersInRole store5 ''role-admin'' =
     Inl (Errorf ''failed to query users in role using GSI1'' ValidationException)"
    using up5 ng5 by (rule repo_ListUsersInRole_no_GSI1)
  from a1 a2 up g l1 g1 l2 g2 reachable_store5 up5 g5 l5 show ?thesis
    by simp
qed

text \<open>
  Claim C8, amended. In every state that the service can produce, on a store that answers
  and a table that has the index \<open>GSI1\<close>, \<^verbatim>\<open>ListUsersInRole\<close> of a role returns users, and
  a user id is among them exactly when \<^verbatim>\<open>GetUserRoles\<close> of that user returns a list that
  holds the role. The service writes an edge only after it has found both ends, and
  nothing deletes metadata.
\<close>

theorem ListUsersInRole_GetUserRoles_consistent:
  assumes "reachable c" and "up c" and "gsi1 c"
  shows "\<exists>users. repo_ListUsersInRole c R = Inr users \<and>
           (\<forall>U. U \<in> set (map User_ID users) \<longleftrightarrow>
                (\<exists>roles. repo_GetUserRoles c U = Inr roles \<and> R \<in> set (map Role_ID roles)))"
proof -
  have inv: "store_inv (table c)"
    using assms(1) by (rule reachable_store_inv)
  from repo_ListUsersInRole_inv [OF inv assms(2,3), of R]
  obtain users where users: "repo_ListUsersInRole c R = Inr users"
    "set (map User_ID users) = {u. \<exists>t. edge_item u R t \<in> set (table c)}"
    by blast
  have "U \<in> set (map User_ID users) \<longleftrightarrow>
        (\<exists>roles. repo_GetUserRoles c U = Inr roles \<and> R \<in> set (map Role_ID roles))" for U
  proof -
    from repo_GetUserRoles_inv [OF inv assms(2), of U]
    obtain roles where roles: "repo_GetUserRoles c U = Inr roles"
      "set (map Role_ID roles) = {r. \<exists>t. edge_item U r t \<in> set (table c)}"
      by blast
    have "U \<in> set (map User_ID users) \<longleftrightarrow> R \<in> set (map Role_ID roles)"
      unfolding users(2) roles(2) by simp
    with roles(1) show ?thesis by simp
  qed
  with users(1) show ?thesis by blast
qed

theorem ListUsersInRole_GetUserRoles_consistent_witness:
  "reachable store5g \<and> up store5g \<and> gsi1 store5g \<and>
   repo_ListUsersInRole store5g ''role-admin'' = Inr [alice] \<and>
   repo_GetUserRoles store5g ''user-alice@example.com'' = Inr [admin] \<and>
   (\<exists>users. repo_ListUsersInRole store5g ''role-admin'' = Inr users \<and>
      (\<forall>U. U \<in> set (map User_ID users) \<longleftrightarrow>
           (\<exists>roles. repo_GetUserRoles store5g U = Inr roles \<and>
                    ''role-admin'' \<in> set (map Role_ID roles))))"
proof -
  have up: "up store5g" and gs: "gsi1 store5g"
    by (simp_all add: store5g_table)
  have gu: "repo_GetUserByID store5g ''user-alice@example.com'' = Inr alice"
    using up by (simp add: repo_GetUserByID_up)
      (simp add: store5g_table lookup_key_Cons alice_def admin_def document_create_def)
  have gr: "repo_GetRoleByID store5g ''role-admin'' = Inr admin"
    using up by (simp add: repo_GetRoleByID_up)
      (simp add: store5g_table lookup_key_Cons alice_def admin_def document_create_def)
  have q1: "filter (key_condition_holds
              (KeyEqBeginsWith ''SK'' (RolePrefix @ ''role-admin'') ''PK'' UserPrefix))
            (table store5g) = [edge_item ''user-alice@example.com'' ''role-admin'' 4]"
    by (simp add: store5g_table alice_def admin_def document_create_def)
  have q2: "filter (key_condition_holds
              (KeyEqBeginsWith ''PK'' (UserPrefix @ ''user-alice@example.com'') ''SK'' RolePrefix))
            (table store5g) = [edge_item ''user-alice@example.com'' ''role-admin'' 4]"
    by (simp add: store5g_table alice_def admin_def document_create_def)
  have l: "repo_ListUsersInRole store5g ''role-admin'' = Inr [alice]"
    using up gs gu
    by (simp add: repo_ListUsersInRole_def Query_GSI1_up q1 del: key_condition_holds.simps)
  have g: "repo_GetUserRoles store5g ''user-alice@example.com'' = Inr [admin]"
    using up gr
    by (simp add: repo_GetUserRoles_def Query_table_up q2 del: key_condition_holds.simps)
  show ?thesis
    using ListUsersInRole_GetUserRoles_consistent [OF reachable_store5g up gs, of "''role-admin''"]
      reachable_store5g up gs l g
    by simp
qed

text \<open>
  Whatever has written the edges, the two lookups agree on every user and role that
  exist, in any table that holds only items of the four writers: an edge is followed from
  both sides exactly when it is there.
\<close>

lemma lookups_agree_on_existing:
  assumes "\<forall>it \<in> set (table c). written_item it" and "up c" and "gsi1 c"
    and "repo_GetUserByID c U = Inr usr" and "repo_GetRoleByID c R = Inr role"
  shows "\<exists>users roles. repo_ListUsersInRole c R = Inr users \<and>
           repo_GetUserRoles c U = Inr roles \<and>
           (U \<in> set (map User_ID users) \<longleftrightarrow> R \<in> set (map Role_ID roles))"
proof -
  have hu: "has_key (table c) (UserPrefix @ U, MetadataPrefix @ U)"
    using repo_GetUserByID_has_key [OF assms(4)] by simp
  have hr: "has_key (table c) (RolePrefix @ R, MetadataPrefix @ R)"
    using repo_GetRoleByID_has_key [OF assms(5)] by simp
  from repo_ListUsersInRole_written [OF assms(1,2,3), of R]
  obtain users where users: "repo_ListUsersInRole c R = Inr users"
    "set (map User_ID users) =
       {u. (\<exists>t. edge_item u R t \<in> set (table c)) \<and>
           has_key (table c) (UserPrefix @ u, MetadataPrefix @ u)}"
    by blast
  from repo_GetUserRoles_written [OF assms(1,2), of U]
  obtain roles where roles: "repo_GetUserRoles c U = Inr roles"
    "set (map Role_ID roles) =
       {r. (\<exists>t. edge_item U r t \<in> set (table c)) \<and>
           has_key (table c) (RolePrefix @ r, MetadataPrefix @ r)}"
    by blast
  have "U \<in> set (map User_ID users) \<longleftrightarrow> R \<in> set (map Role_ID roles)"
    unfolding users(2) roles(2) using hu hr by simp
  with users(1) roles(1) show ?thesis
    by blast
qed

section \<open>The listing index and the entity type\<close>

text \<open>
  Claim C9 says that \<^verbatim>\<open>ListAllUsers\<close> leaves the items of roles and permissions out, because
  \<^verbatim>\<open>GetUserByID\<close> fails for their ids. The items are in the result of its query because
  \<^verbatim>\<open>roleToItem\<close> and \<^verbatim>\<open>permissionToItem\<close> write them with \<^verbatim>\<open>EntityTypeUser\<close>, and not with
  \<^verbatim>\<open>EntityTypeRole\<close> and \<^verbatim>\<open>EntityTypePermission\<close>, which nothing uses. The lookup does not
  keep all of them out: the id of a permission is chosen by the caller, and for a
  permission whose id is the id of a stored user the lookup succeeds, and \<^verbatim>\<open>ListAllUsers\<close>
  returns that user twice.
\<close>

theorem ListAllUsers_lists_user_twice:
  "service_CreateUser store0 1 ''Alice'' ''alice@example.com'' = (Inr alice, store1) \<and>
   service_CreatePermission store1 3 ''user-alice@example.com'' ''Shadow'' [] =
     (Inr shadow, store1p) \<and>
   marshalled (PermissionItem (permissionToItem shadow)) ''EntityType'' = Some (S EntityTypeUser) \<and>
   EntityTypeUser \<noteq> EntityTypePermission \<and>
   marshalled (RoleItem (roleToItem admin)) ''EntityType'' = Some (S EntityTypeUser) \<and>
   EntityTypeUser \<noteq> EntityTypeRole \<and>
   repo_GetUserByID store1p (Permission_ID shadow) = Inr alice \<and>
   repo_ListAllUsers store1p = Inr [alice, alice]"
proof -
  have up: "up store1p"
    by (simp add: store1p_table)
  have g: "repo_GetUserByID store1p ''user-alice@example.com'' = Inr alice"
    using up by (simp add: repo_GetUserByID_up)
      (simp add: store1p_table lookup_key_Cons alice_def shadow_def prefix_defs)
  have keys: "\<forall>it \<in> set (table store1p). item_key it \<noteq> None"
    by (simp add: store1p_table)
  have l1: "listed_user store1p (marshalled (PermissionItem (permissionToItem shadow))) = [alice]"
    using g by (simp add: listed_user_def shadow_def)
  have l2: "listed_user store1p (marshalled (UserItem (userToItem alice))) = [alice]"
    using g by (simp add: listed_user_def alice_def)
  have tbl: "table store1p = [marshalled (PermissionItem (permissionToItem shadow)),
        marshalled (UserItem (userToItem alice))]"
    by (simp add: store1p_table)
  have et: "marshalled (PermissionItem (permissionToItem shadow)) ''EntityType'' =
      Some (S EntityTypeUser)"
    "EntityTypeUser \<noteq> EntityTypePermission"
    "marshalled (RoleItem (roleToItem admin)) ''EntityType'' = Some (S EntityTypeUser)"
    "EntityTypeUser \<noteq> EntityTypeRole"
    by (simp_all add: EntityTypeUser_def EntityTypePermission_def EntityTypeRole_def)
  have "repo_ListAllUsers store1p = Inr [alice, alice]"
    by (simp add: repo_ListAllUsers_eq [OF up keys] tbl l1 l2)
  with g store1_eq store1p_eq et show ?thesis
    by (simp add: shadow_def)
qed

end
